theory Spec2Isabelle
  imports Complex_Main "HOL-Library.Monad_Syntax"
begin

section \<open>Scalars and small helpers of tetra\_utils.cpp\<close>

text \<open>
  The editors never do arithmetic on the quality and size values they get from the
  geometry kernel: they compare them (\<open><\<close>, \<open>>\<close>, \<open>==\<close>), take \<open>std::max\<close> and test
  \<open>std::isinf\<close> / \<open>std::isnan\<close>. A C++ \<open>double\<close> is therefore modelled by what these
  operations can see: not-a-number, the two infinities, or a finite value (a rational;
  the two signed zeros compare equal and are one value here).
\<close>

datatype dbl = NaN | MInf | Fin rat | PInf

text \<open>\<open>a < b\<close> on doubles: false as soon as one side is NaN.\<close>

fun dless :: "dbl \<Rightarrow> dbl \<Rightarrow> bool" where
  "dless NaN b = False"
| "dless a NaN = False"
| "dless PInf b = False"
| "dless a MInf = False"
| "dless MInf b = True"
| "dless a PInf = True"
| "dless (Fin a) (Fin b) = (a < b)"

text \<open>\<open>a <= b\<close> and \<open>a == b\<close> on doubles.\<close>

definition dle :: "dbl \<Rightarrow> dbl \<Rightarrow> bool" where
  "dle a b = (a \<noteq> NaN \<and> b \<noteq> NaN \<and> \<not> dless b a)"

definition deq :: "dbl \<Rightarrow> dbl \<Rightarrow> bool" where
  "deq a b = (a \<noteq> NaN \<and> b \<noteq> NaN \<and> a = b)"

text \<open>\<open>std::max(a, b)\<close> is \<open>(a < b) ? b : a\<close>.\<close>

definition std_max :: "dbl \<Rightarrow> dbl \<Rightarrow> dbl" where
  "std_max a b = (if dless a b then b else a)"

definition isnan :: "dbl \<Rightarrow> bool" where
  "isnan a = (a = NaN)"

definition isinf :: "dbl \<Rightarrow> bool" where
  "isinf a = (a = PInf \<or> a = MInf)"

text \<open>
  \<open>assert(c)\<close> stops the process in a debug build and is compiled out under \<open>NDEBUG\<close>;
  \<open>require(c, msg)\<close> and \<open>abort_and_debug\<close> throw in every build. A call that does not
  return to its caller is the value \<open>None\<close>. The flag \<open>dbg\<close> says whether assertions are
  compiled in, so every theorem below covers both builds.
\<close>

definition assert_that :: "bool \<Rightarrow> bool \<Rightarrow> unit option" where
  "assert_that dbg c = (if dbg \<and> \<not> c then None else Some ())"

definition require :: "bool \<Rightarrow> unit option" where
  "require c = (if c then Some () else None)"

text \<open>\<open>set_inter\<close>: \<open>std::set_intersection\<close> into a fresh vector (the merge walk).\<close>

fun set_inter :: "int list \<Rightarrow> int list \<Rightarrow> int list" where
  "set_inter [] bs = []"
| "set_inter as [] = []"
| "set_inter (a # as) (b # bs) =
     (if a < b then set_inter as (b # bs)
      else if b < a then set_inter (a # as) bs
      else a # set_inter as bs)"

text \<open>
  Modelled from the spec: \<open>set_minus\<close> is declared in prism/common.hpp, which is not among
  the sources. The connectivity rewrite uses it to take the affected tets out of a
  vertex's sorted adjacency list; it is modelled as \<open>std::set_difference\<close> appended to
  the output vector.
\<close>

fun set_minus :: "int list \<Rightarrow> int list \<Rightarrow> int list" where
  "set_minus [] bs = []"
| "set_minus as [] = as"
| "set_minus (a # as) (b # bs) =
     (if a < b then a # set_minus as (b # bs)
      else if b < a then set_minus (a # as) bs
      else set_minus as bs)"

text \<open>\<open>set_insert\<close>: insert before the first element that is not smaller (\<open>lower_bound\<close>).\<close>

fun set_insert :: "int list \<Rightarrow> int \<Rightarrow> int list" where
  "set_insert [] a = [a]"
| "set_insert (x # xs) a = (if x < a then x # set_insert xs a else a # x # xs)"

text \<open>
  \<open>replace(arr, a, b)\<close> overwrites the first entry equal to \<open>a\<close>. When there is none it
  runs into \<open>assert(false)\<close>, and in a release build leaves the array as it is.
\<close>

fun replace_loop :: "int list \<Rightarrow> int \<Rightarrow> int \<Rightarrow> int list option" where
  "replace_loop [] a b = None"
| "replace_loop (x # xs) a b =
     (if x = a then Some (b # xs) else map_option ((#) x) (replace_loop xs a b))"

definition replace :: "bool \<Rightarrow> int list \<Rightarrow> int \<Rightarrow> int \<Rightarrow> int list option" where
  "replace dbg arr a b =
     (case replace_loop arr a b of
        Some arr' \<Rightarrow> Some arr'
      | None \<Rightarrow> if dbg then None else Some arr)"

text \<open>\<open>id_in_array(v, k)\<close>: the first index holding \<open>k\<close>, or \<open>-1\<close>.\<close>

fun id_loop :: "nat \<Rightarrow> int list \<Rightarrow> int \<Rightarrow> int" where
  "id_loop i [] k = -1"
| "id_loop i (x # xs) k = (if x = k then int i else id_loop (Suc i) xs k)"

definition id_in_array :: "int list \<Rightarrow> int \<Rightarrow> int" where
  "id_in_array v k = id_loop 0 v k"

text \<open>\<open>sorted_face(conn, j)\<close>: the three entries other than entry \<open>j\<close>, sorted.\<close>

definition sorted_face :: "int list \<Rightarrow> nat \<Rightarrow> int list" where
  "sorted_face conn j = sort (map (\<lambda>k. conn ! ((1 + k + j) mod 4)) [0, 1, 2])"

text \<open>\<open>v.resize(n)\<close> with value-initialised new slots, and \<open>v.pop_back()\<close>.\<close>

definition resize :: "nat \<Rightarrow> 'a \<Rightarrow> 'a list \<Rightarrow> 'a list" where
  "resize n d xs = take n xs @ replicate (n - length xs) d"

definition pop_back :: "'a list \<Rightarrow> 'a list" where
  "pop_back xs = butlast xs"

section \<open>Data model\<close>

text \<open>
  Modelled from the spec: the declarations of \<open>VertAttr\<close> and \<open>TetAttr\<close> are in
  tetra\_utils.hpp, which is not among the sources. Their fields are the ones the
  source files read and write; a default-constructed vertex has no shell-id
  (\<open>mid_id = -1\<close>) and a default-constructed tet has four interior tags and is not
  removed. \<open>Vec3i\<close> and \<open>Vec4i\<close> are \<open>std::array<int, 3>\<close> and \<open>std::array<int, 4>\<close>,
  modelled as integer lists of that length; \<open>Vec3d\<close> is the type parameter \<open>'p\<close>.
  Indices are C++ \<open>int\<close>s with \<open>-1\<close> for "none"; \<open>operator[]\<close> is unchecked, so the
  model reads with \<open>!\<close> and the predicate \<open>in_bounds\<close> below says when every read of an
  editor stays inside its vector.
\<close>

record 'p VertAttr =
  pos :: 'p
  mid_id :: int

record TetAttr =
  prism_id :: "int list"
  is_removed :: bool
  conn :: "int list"

definition default_TetAttr :: TetAttr where
  "default_TetAttr = \<lparr>prism_id = [-1, -1, -1, -1], is_removed = False, conn = [-1, -1, -1, -1]\<rparr>"

text \<open>
  The fields of \<open>prism::local::RemeshOptions\<close> and of \<open>PrismCage\<close> that the editors touch.
  A tracked set (\<open>std::set<int>\<close>) is an increasing integer list; the two hash grids are
  optional values of an opaque type \<open>'g\<close>; \<open>pc.ref\<close> contributes its triangle list, its
  vertex list and \<open>aabb->num_freeze\<close>.
\<close>

record RemeshOptions =
  target_adjustment :: "dbl list"
  collapse_quality_threshold :: dbl
  target_thickness :: dbl

record ('p, 'g) PrismCage =
  pc_base :: "'p list"
  pc_mid :: "'p list"
  pc_top :: "'p list"
  pc_F :: "int list list"
  pc_track_ref :: "int list list"
  pc_top_grid :: "'g option"
  pc_base_grid :: "'g option"
  pc_ref_F :: "int list list"
  pc_ref_V :: "'p list"
  pc_num_freeze :: int

text \<open>Everything an editor receives by reference, as one state.\<close>

record ('p, 'g) mesh =
  pc :: "('p, 'g) PrismCage"
  opts :: RemeshOptions
  vert_attrs :: "'p VertAttr list"
  tet_attrs :: "TetAttr list"
  vert_conn :: "int list list"

datatype SmoothType = kInteriorNewton | kSurfaceSnap | kShellPan | kShellZoom | kShellRotate

text \<open>
  The external collaborators (geometry kernel, shell oracle, libigl, Eigen arithmetic on
  \<open>Vec3d\<close>), none of which is in the sources: each is a parameter of the model.
  \<open>attempt_shell_operation\<close> takes the cage by const reference and returns its flag
  together with the tracked sets it wrote to its output parameter.
\<close>

record ('p, 'g) kernel =
  tetra_validity :: "'p VertAttr list \<Rightarrow> int list \<Rightarrow> bool"
  tetra_quality :: "'p \<Rightarrow> 'p \<Rightarrow> 'p \<Rightarrow> 'p \<Rightarrow> dbl"
  circumradi2 :: "'p \<Rightarrow> 'p \<Rightarrow> 'p \<Rightarrow> 'p \<Rightarrow> dbl"
  attempt_shell_operation ::
    "('p, 'g) PrismCage \<Rightarrow> int list list \<Rightarrow> RemeshOptions \<Rightarrow> dbl \<Rightarrow> int list \<Rightarrow>
     int list list \<Rightarrow> int \<times> int list list"
  triangle_shifts :: "int list list \<Rightarrow> int list list"
  grid_remove_element :: "int \<Rightarrow> 'g \<Rightarrow> 'g"
  grid_insert_triangles :: "'p list \<Rightarrow> int list list \<Rightarrow> int list \<Rightarrow> 'g \<Rightarrow> 'g"
  boundary_facets :: "int list list \<Rightarrow> int list list"
  newton_position_from_stack :: "'p list list \<Rightarrow> 'p"
  smoother_direction ::
    "'p list \<Rightarrow> 'p list \<Rightarrow> 'p list \<Rightarrow> int list list \<Rightarrow> int \<Rightarrow> int list \<Rightarrow> int list \<Rightarrow>
     int \<Rightarrow> 'p option"
  zoom ::
    "'p list \<Rightarrow> 'p list \<Rightarrow> 'p list \<Rightarrow> int list list \<Rightarrow> int list \<Rightarrow> int list \<Rightarrow> int \<Rightarrow>
     dbl \<Rightarrow> ('p \<times> 'p) option"
  rotate ::
    "'p list \<Rightarrow> 'p list \<Rightarrow> 'p list \<Rightarrow> int list list \<Rightarrow> int list \<Rightarrow> int list \<Rightarrow> int \<Rightarrow>
     dbl \<Rightarrow> ('p \<times> 'p) option"
  segment_triangle_intersection :: "'p \<times> 'p \<Rightarrow> 'p \<times> 'p \<times> 'p \<Rightarrow> 'p option"
  vec_add :: "'p \<Rightarrow> 'p \<Rightarrow> 'p"
  vec_half :: "'p \<Rightarrow> 'p"
  vec_zero :: 'p
  vec_neq :: "'p \<Rightarrow> 'p \<Rightarrow> bool"
  dbl_add :: "dbl \<Rightarrow> dbl \<Rightarrow> dbl"
  dbl_half :: "dbl \<Rightarrow> dbl"

text \<open>\<open>vert_attrs.push_back({})\<close>: a default vertex; \<open>Vec3d pos\<close> starts as the zero vector.\<close>

definition default_VertAttr :: "('p, 'g) kernel \<Rightarrow> 'p VertAttr" where
  "default_VertAttr K = \<lparr>pos = vec_zero K, mid_id = -1\<rparr>"

section \<open>Quality and size of a list of tets\<close>

definition tet_pos :: "'p VertAttr list \<Rightarrow> int list \<Rightarrow> nat \<Rightarrow> 'p" where
  "tet_pos va t j = pos (va ! nat (t ! j))"

definition compute_quality :: "('p, 'g) kernel \<Rightarrow> 'p VertAttr list \<Rightarrow> int list list \<Rightarrow> dbl" where
  "compute_quality K va tets =
     fold (\<lambda>t maxqual.
             std_max maxqual
               (tetra_quality K (tet_pos va t 0) (tet_pos va t 1) (tet_pos va t 2) (tet_pos va t 3)))
          tets (Fin 0)"

definition max_tetra_sizes :: "('p, 'g) kernel \<Rightarrow> 'p VertAttr list \<Rightarrow> int list list \<Rightarrow> dbl" where
  "max_tetra_sizes K va tets =
     fold (\<lambda>t max_size.
             std_max
               (circumradi2 K (tet_pos va t 0) (tet_pos va t 1) (tet_pos va t 2) (tet_pos va t 3))
               max_size)
          tets (Fin 0)"

section \<open>Shell update and connectivity rewrite\<close>

definition edge_adjacent_boundary_face ::
  "TetAttr list \<Rightarrow> int list list \<Rightarrow> int \<Rightarrow> int \<Rightarrow> int list" where
  "edge_adjacent_boundary_face ta vc v0 v1 =
     (let affected = set_inter (vc ! nat v0) (vc ! nat v1) in
      concat (map (\<lambda>t. map (\<lambda>j. prism_id (ta ! nat t) ! j)
                          (filter (\<lambda>j. prism_id (ta ! nat t) ! j \<noteq> -1
                                      \<and> conn (ta ! nat t) ! j \<noteq> v0
                                      \<and> conn (ta ! nat t) ! j \<noteq> v1) [0, 1, 2, 3]))
                  affected))"

text \<open>\<open>for (auto i : old_fid) pc.F[i].fill(-1)\<close>\<close>

definition fill_removed :: "int list \<Rightarrow> int list list \<Rightarrow> int list list" where
  "fill_removed old_fid Fs = fold (\<lambda>i Fs. Fs[nat i := map (\<lambda>_. -1) (Fs ! nat i)]) old_fid Fs"

text \<open>
  One round of the installing loop of \<open>update_pc\<close>. The test \<open>f >= pc.F.size()\<close> compares
  as unsigned, so a negative \<open>f\<close> passes it as well; new triangle slots are
  value-initialised (three zeros), new tracked sets are empty.
\<close>

definition install_face ::
  "int list \<Rightarrow> int list list \<Rightarrow> int list list \<Rightarrow> nat \<Rightarrow>
   int list list \<times> int list list \<Rightarrow> int list list \<times> int list list" where
  "install_face new_fid new_conn new_tracks i = (\<lambda>(Fs, tr).
     let f = new_fid ! i;
         Fs1 = (if f < 0 \<or> int (length Fs) \<le> f then resize (nat (f + 1)) [0, 0, 0] Fs else Fs);
         tr1 = (if f < 0 \<or> int (length Fs) \<le> f then resize (nat (f + 1)) [] tr else tr)
     in (Fs1[nat f := new_conn ! i], tr1[nat f := new_tracks ! i]))"

text \<open>
  \<open>update_pc\<close> changes the cage and, through \<open>triangle_shifts\<close>, the caller's \<open>new_conn\<close>;
  both are returned.
\<close>

definition update_pc ::
  "('p, 'g) kernel \<Rightarrow> bool \<Rightarrow> ('p, 'g) PrismCage \<Rightarrow> int list \<Rightarrow> int list \<Rightarrow> int list list \<Rightarrow>
   int list list \<Rightarrow> (('p, 'g) PrismCage \<times> int list list) option" where
  "update_pc K dbg c old_fid new_fid new_conn new_tracks = do {
     assert_that dbg (length new_fid = length new_conn);
     assert_that dbg (length new_fid = length new_tracks);
     let F0 = fill_removed old_fid (pc_F c);
     let shifted = triangle_shifts K new_conn;
     let (F1, tr1) =
       fold (install_face new_fid shifted new_tracks) [0..<length new_fid] (F0, pc_track_ref c);
     let c1 = c\<lparr>pc_F := F1, pc_track_ref := tr1\<rparr>;
     Some (case pc_top_grid c1 of
             None \<Rightarrow> c1
           | Some g \<Rightarrow>
               c1\<lparr>pc_top_grid :=
                    Some (grid_insert_triangles K (pc_top c1) F1 new_fid
                            (fold (grid_remove_element K) old_fid g)),
                  pc_base_grid :=
                    map_option
                      (\<lambda>b. grid_insert_triangles K (pc_base c1) F1 new_fid
                              (fold (grid_remove_element K) old_fid b))
                      (pc_base_grid c1)\<rparr>,
           shifted)
   }"

text \<open>
  \<open>std::map<Vec3i, int>\<close> as an association list with distinct keys: \<open>emplace\<close> keeps an
  existing entry, \<open>insert_or_assign\<close> overwrites it, \<open>find\<close> is \<open>map_of\<close>, \<open>size()\<close> is the
  length.
\<close>

definition map_emplace :: "'k \<Rightarrow> 'v \<Rightarrow> ('k \<times> 'v) list \<Rightarrow> ('k \<times> 'v) list" where
  "map_emplace k v m = (if map_of m k = None then m @ [(k, v)] else m)"

definition map_insert_or_assign :: "'k \<Rightarrow> 'v \<Rightarrow> ('k \<times> 'v) list \<Rightarrow> ('k \<times> 'v) list" where
  "map_insert_or_assign k v m =
     (if map_of m k = None then m @ [(k, v)]
      else map (\<lambda>(k', v'). if k' = k then (k', v) else (k', v')) m)"

text \<open>The sorted shell-ids of the face opposite entry \<open>j\<close> of a tet.\<close>

definition shell_face :: "'p VertAttr list \<Rightarrow> int list \<Rightarrow> nat \<Rightarrow> int list" where
  "shell_face va cn j = sort (map (\<lambda>k. mid_id (va ! nat (cn ! ((j + k + 1) mod 4)))) [0, 1, 2])"

definition tagged_faces :: "TetAttr list \<Rightarrow> int list \<Rightarrow> (int \<times> nat) list" where
  "tagged_faces ta affected =
     concat (map (\<lambda>ti. map (\<lambda>j. (ti, j))
                          (filter (\<lambda>j. prism_id (ta ! nat ti) ! j \<noteq> -1) [0, 1, 2, 3]))
                 affected)"

definition moved_pris_assigner ::
  "'p VertAttr list \<Rightarrow> TetAttr list \<Rightarrow> int list \<Rightarrow> int list \<Rightarrow> int list list \<Rightarrow>
   (int list \<times> int) list" where
  "moved_pris_assigner va ta affected modified_pids modified_tris =
     (let old = fold (\<lambda>(ti, j). map_emplace (shell_face va (conn (ta ! nat ti)) j)
                                   (prism_id (ta ! nat ti) ! j))
                     (tagged_faces ta affected) []
      in fold (\<lambda>i. map_insert_or_assign (sort (modified_tris ! i)) (modified_pids ! i))
              [0..<length modified_pids] old)"

text \<open>
  One round of the loop over \<open>new_tets\<close>. \<open>tet_hits\<close> are the faces of the new tet whose
  sorted shell-ids are all set and are found in the table; \<open>new_tet_attr\<close> is the
  \<open>TetAttr\<close> built for the tet (default tags, overwritten at the hits); \<open>add_new_tet\<close>
  updates the adjacency lists of the tet's vertices, appends the \<open>TetAttr\<close> and adds the
  number of tags given to the running count.
\<close>

definition tet_hits :: "'p VertAttr list \<Rightarrow> (int list \<times> int) list \<Rightarrow> int list \<Rightarrow> nat list" where
  "tet_hits va asg t =
     (let tet_mid = map (\<lambda>j. mid_id (va ! nat (t ! j))) [0, 1, 2, 3]
      in filter (\<lambda>j. hd (sorted_face tet_mid j) \<noteq> -1 \<and> map_of asg (sorted_face tet_mid j) \<noteq> None)
                [0, 1, 2, 3])"

definition new_tet_attr :: "'p VertAttr list \<Rightarrow> (int list \<times> int) list \<Rightarrow> int list \<Rightarrow> TetAttr" where
  "new_tet_attr va asg t =
     (let tet_mid = map (\<lambda>j. mid_id (va ! nat (t ! j))) [0, 1, 2, 3]
      in default_TetAttr
           \<lparr>conn := t,
            prism_id := fold (\<lambda>j p. p[j := the (map_of asg (sorted_face tet_mid j))]) (tet_hits va asg t)
                          (prism_id default_TetAttr)\<rparr>)"

definition add_new_tet ::
  "'p VertAttr list \<Rightarrow> int list \<Rightarrow> (int list \<times> int) list \<Rightarrow> int list \<Rightarrow>
   int list list \<times> TetAttr list \<times> nat \<Rightarrow> int list list \<times> TetAttr list \<times> nat" where
  "add_new_tet va affected asg t = (\<lambda>(vc, ta, cnt).
     (fold (\<lambda>i vc. vc[nat (t ! i) := set_insert (set_minus (vc ! nat (t ! i)) affected) (int (length ta))])
           [0..<length t] vc,
      ta @ [new_tet_attr va asg t],
      cnt + length (tet_hits va asg t)))"

definition update_tetra_conn ::
  "bool \<Rightarrow> 'p VertAttr list \<Rightarrow> TetAttr list \<Rightarrow> int list list \<Rightarrow> int list \<Rightarrow> int list list \<Rightarrow>
   int list \<Rightarrow> int list list \<Rightarrow> (TetAttr list \<times> int list list) option" where
  "update_tetra_conn dbg va ta vc affected new_tets modified_pids modified_tris = do {
     let vc0 = resize (length va) [] vc;
     let ta0 = fold (\<lambda>ti ta. ta[nat ti := (ta ! nat ti)\<lparr>is_removed := True\<rparr>]) affected ta;
     assert_that dbg
       (list_all (\<lambda>(ti, j). hd (shell_face va (conn (ta ! nat ti)) j) \<noteq> -1) (tagged_faces ta affected));
     assert_that dbg (length modified_pids = length modified_tris);
     let asg = moved_pris_assigner va ta affected modified_pids modified_tris;
     let affected_verts = sort (remdups (concat (map (\<lambda>t. conn (ta0 ! nat t)) affected)));
     let vc1 = fold (\<lambda>v vc. vc[nat v := set_minus (vc ! nat v) affected]) affected_verts vc0;
     let (vc2, ta2, cnt_assigned_prisms) = fold (add_new_tet va affected asg) new_tets (vc1, ta0, 0);
     require (length modified_tris \<le> cnt_assigned_prisms);
     (if modified_tris = [] then require (length asg = cnt_assigned_prisms) else Some ());
     Some (ta2, vc2)
   }"

section \<open>The sanity checker\<close>

text \<open>The face counter of the duplicate check: \<open>None\<close> when a face is met a third time.\<close>

fun count_faces :: "int list list \<Rightarrow> (int list \<times> nat) list \<Rightarrow> (int list \<times> nat) list option" where
  "count_faces [] fd = Some fd"
| "count_faces (f # fs) fd =
     (case map_of fd f of
        None \<Rightarrow> count_faces fs ((f, 1) # fd)
      | Some n \<Rightarrow> if 2 < Suc n then None else count_faces fs ((f, Suc n) # fd))"

fun duplicate_free :: "TetAttr list \<Rightarrow> int list list \<Rightarrow> (int list \<times> nat) list \<Rightarrow> bool" where
  "duplicate_free [] td fd = True"
| "duplicate_free (tet # rest) td fd =
     (if is_removed tet then duplicate_free rest td fd
      else if sort (conn tet) \<in> set td then False
      else (case count_faces (map (sorted_face (conn tet)) [0, 1, 2, 3]) fd of
              None \<Rightarrow> False
            | Some fd' \<Rightarrow> duplicate_free rest (sort (conn tet) # td) fd'))"

text \<open>The set \<open>boundary_faces\<close> as a duplicate-free list, and the lambda \<open>count_pc_faces\<close>.\<close>

definition boundary_faces :: "TetAttr list \<Rightarrow> int list list" where
  "boundary_faces ta =
     remdups (concat (map (\<lambda>tet. if is_removed tet then []
                                  else map (sorted_face (conn tet))
                                         (filter (\<lambda>j. prism_id tet ! j \<noteq> -1) [0, 1, 2, 3]))
                          ta))"

definition count_pc_faces :: "('p, 'g) PrismCage \<Rightarrow> nat" where
  "count_pc_faces c = length (filter (\<lambda>f. f ! 0 \<noteq> -1) (pc_F c))"

definition internal_vertex_ok ::
  "('p, 'g) kernel \<Rightarrow> TetAttr list \<Rightarrow> 'p VertAttr list \<Rightarrow> int list list \<Rightarrow> nat \<Rightarrow> bool" where
  "internal_vertex_ok K ta va vtc i =
     (0 \<le> mid_id (va ! i) \<or> vtc ! i = [] \<or>
      int i \<notin> set (concat (boundary_facets K (map (\<lambda>t. conn (ta ! nat t)) (vtc ! i)))))"

definition tetmesh_sanity ::
  "('p, 'g) kernel \<Rightarrow> TetAttr list \<Rightarrow> 'p VertAttr list \<Rightarrow> int list list \<Rightarrow> ('p, 'g) PrismCage \<Rightarrow> bool"
  where
  "tetmesh_sanity K ta va vtc c =
     (list_all (\<lambda>tet. is_removed tet \<or> tetra_validity K va (conn tet)) ta
      \<and> duplicate_free ta [] []
      \<and> length (boundary_faces ta) = count_pc_faces c
      \<and> list_all (internal_vertex_ok K ta va vtc) [0..<length va]
      \<and> list_all (\<lambda>v. mid_id v = -1 \<or> \<not> vec_neq K (pos v) (pc_mid c ! nat (mid_id v))) va)"

section \<open>split\_edge\<close>

definition split_new_tets ::
  "bool \<Rightarrow> TetAttr list \<Rightarrow> int list \<Rightarrow> int \<Rightarrow> int \<Rightarrow> int \<Rightarrow> int list list option" where
  "split_new_tets dbg ta affected v0 v1 vx =
     map_option concat
       (those (map (\<lambda>t. do {
                      a \<leftarrow> replace dbg (conn (ta ! nat t)) v0 vx;
                      b \<leftarrow> replace dbg (conn (ta ! nat t)) v1 vx;
                      Some [a, b]
                    }) affected))"

text \<open>The lambda \<open>rollback\<close> of \<open>split_edge\<close>, applied to the state at the time of the call.\<close>

definition split_rollback :: "('p, 'g) mesh \<Rightarrow> ('p, 'g) mesh" where
  "split_rollback s =
     s\<lparr>vert_attrs := pop_back (vert_attrs s),
       pc := (pc s)\<lparr>pc_top := pop_back (pc_top (pc s)),
                    pc_base := pop_back (pc_base (pc s)),
                    pc_mid := pop_back (pc_mid (pc s))\<rparr>\<rparr>"

text \<open>The first \<open>if (!bnd_pris.empty())\<close> block: the new shell vertex.\<close>

definition split_push_shell ::
  "('p, 'g) kernel \<Rightarrow> bool \<Rightarrow> ('p, 'g) mesh \<Rightarrow> int \<Rightarrow> int \<Rightarrow> int list \<Rightarrow> ('p, 'g) mesh option" where
  "split_push_shell K dbg s v0 v1 bnd_pris = do {
     let p_vx = int (length (pc_mid (pc s)));
     let pv0 = mid_id (vert_attrs s ! nat v0);
     let pv1 = mid_id (vert_attrs s ! nat v1);
     assert_that dbg (length bnd_pris = 2);
     let va = butlast (vert_attrs s) @ [(last (vert_attrs s))\<lparr>mid_id := p_vx\<rparr>];
     assert_that dbg (0 \<le> mid_id (va ! nat v0) \<and> 0 \<le> mid_id (va ! nat v1));
     let c = pc s;
     let ta = target_adjustment (opts s);
     Some (s\<lparr>vert_attrs := va,
             pc := c\<lparr>pc_top := pc_top c @ [vec_half K (vec_add K (pc_top c ! nat pv0) (pc_top c ! nat pv1))],
                     pc_base := pc_base c @ [vec_half K (vec_add K (pc_base c ! nat pv0) (pc_base c ! nat pv1))],
                     pc_mid := pc_mid c @ [pos (last va)]\<rparr>,
             opts := (opts s)\<lparr>target_adjustment :=
                        ta @ [dbl_half K (dbl_add K (ta ! nat pv0) (ta ! nat pv1))]\<rparr>\<rparr>)
   }"

text \<open>
  The second \<open>if (!bnd_pris.empty())\<close> block: \<open>Some None\<close> when the shell oracle refuses,
  otherwise the state with the cage updated, \<open>new_fid\<close> and \<open>moved_tris\<close>.
\<close>

definition split_shell ::
  "('p, 'g) kernel \<Rightarrow> bool \<Rightarrow> ('p, 'g) mesh \<Rightarrow> int \<Rightarrow> int \<Rightarrow> int list \<Rightarrow>
   (('p, 'g) mesh \<times> int list \<times> int list list) option option" where
  "split_shell K dbg s pv0 pv1 bnd_pris = do {
     let pvx = int (length (pc_mid (pc s))) - 1;
     assert_that dbg (length bnd_pris = 2);
     let Fs = pc_F (pc s);
     let f0 = hd bnd_pris;
     let f1 = last bnd_pris;
     m0 \<leftarrow> replace dbg (Fs ! nat f0) pv0 pvx;
     m1 \<leftarrow> replace dbg (Fs ! nat f1) pv0 pvx;
     m2 \<leftarrow> replace dbg (Fs ! nat f0) pv1 pvx;
     m3 \<leftarrow> replace dbg (Fs ! nat f1) pv1 pvx;
     let moved_tris = [m0, m1, m2, m3];
     let (flag, new_tracks) =
       attempt_shell_operation K (pc s) (pc_track_ref (pc s)) (opts s) (Fin (-1)) [f0, f1] moved_tris;
     if flag \<noteq> 0 then Some None
     else do {
       let new_fid = [f0, f1, int (length Fs), int (length Fs + 1)];
       (c', shifted) \<leftarrow> update_pc K dbg (pc s) [f0, f1] new_fid moved_tris new_tracks;
       Some (Some (s\<lparr>pc := c'\<rparr>, new_fid, shifted))
     }
   }"

text \<open>The tail of every successful editor: rewrite the connectivity, then audit.\<close>

definition commit ::
  "('p, 'g) kernel \<Rightarrow> bool \<Rightarrow> ('p, 'g) mesh \<Rightarrow> int list \<Rightarrow> int list list \<Rightarrow> int list \<Rightarrow>
   int list list \<Rightarrow> ('p, 'g) mesh option" where
  "commit K dbg s affected new_tets new_fid moved_tris = do {
     (ta, vc) \<leftarrow> update_tetra_conn dbg (vert_attrs s) (tet_attrs s) (vert_conn s) affected new_tets
                   new_fid moved_tris;
     Some (s\<lparr>tet_attrs := ta, vert_conn := vc\<rparr>)
   }"

definition audited :: "('p, 'g) kernel \<Rightarrow> ('p, 'g) mesh \<Rightarrow> (bool \<times> ('p, 'g) mesh) option" where
  "audited K s =
     (if \<not> tetmesh_sanity K (tet_attrs s) (vert_attrs s) (vert_conn s) (pc s) then None
      else Some (True, s))"

text \<open>
  \<open>vert_attrs.push_back({})\<close> followed by the assignment of the midpoint to
  \<open>vert_attrs.back().pos\<close> (the two positions are read after the push).
\<close>

definition split_add_vertex :: "('p, 'g) kernel \<Rightarrow> ('p, 'g) mesh \<Rightarrow> int \<Rightarrow> int \<Rightarrow> ('p, 'g) mesh" where
  "split_add_vertex K s v0 v1 =
     (let va = vert_attrs s @ [default_VertAttr K]
      in s\<lparr>vert_attrs :=
             butlast va @
             [(last va)\<lparr>pos := vec_half K (vec_add K (pos (va ! nat v0)) (pos (va ! nat v1)))\<rparr>]\<rparr>)"

text \<open>
  The part of \<open>split_edge\<close> after the validity loop: the shell attempt for a boundary
  edge, then the connectivity rewrite and the audit.
\<close>

definition split_finish ::
  "('p, 'g) kernel \<Rightarrow> bool \<Rightarrow> ('p, 'g) mesh \<Rightarrow> int list \<Rightarrow> int list list \<Rightarrow> int list \<Rightarrow> int \<Rightarrow> int \<Rightarrow>
   (bool \<times> ('p, 'g) mesh) option" where
  "split_finish K dbg s2 affected new_tets bnd_pris pv0 pv1 = do {
     r \<leftarrow> (if bnd_pris \<noteq> [] then split_shell K dbg s2 pv0 pv1 bnd_pris
            else Some (Some (s2, [], [])));
     case r of
       None \<Rightarrow> Some (False, split_rollback s2)
     | Some (s3, new_fid, moved_tris) \<Rightarrow> do {
         s4 \<leftarrow> commit K dbg s3 affected new_tets new_fid moved_tris;
         audited K s4
       }
   }"

definition split_edge ::
  "('p, 'g) kernel \<Rightarrow> bool \<Rightarrow> ('p, 'g) mesh \<Rightarrow> int \<Rightarrow> int \<Rightarrow> (bool \<times> ('p, 'g) mesh) option" where
  "split_edge K dbg s v0 v1 =
     (let affected = set_inter (vert_conn s ! nat v0) (vert_conn s ! nat v1) in
      do {
        assert_that dbg (affected \<noteq> []);
        let vx = int (length (vert_attrs s));
        let bnd_pris = edge_adjacent_boundary_face (tet_attrs s) (vert_conn s) v0 v1;
        new_tets \<leftarrow> split_new_tets dbg (tet_attrs s) affected v0 v1 vx;
        let s1 = split_add_vertex K s v0 v1;
        let pv0 = mid_id (vert_attrs s1 ! nat v0);
        let pv1 = mid_id (vert_attrs s1 ! nat v1);
        s2 \<leftarrow> (if bnd_pris \<noteq> [] then split_push_shell K dbg s1 v0 v1 bnd_pris else Some s1);
        if \<not> list_all (tetra_validity K (vert_attrs s2)) new_tets then Some (False, split_rollback s2)
        else split_finish K dbg s2 affected new_tets bnd_pris pv0 pv1
      })"

section \<open>collapse\_edge\<close>

text \<open>
  The loop building \<open>new_tets\<close>: a tet of \<open>v1\<close> that also holds \<open>v2\<close> is skipped, in the
  others the entry of \<open>v1\<close> is overwritten by \<open>v2\<close>. (When \<open>v1\<close> is not in the tet the
  release build writes at index \<open>-1\<close>, outside the array; the model leaves the array as
  it is.)
\<close>

definition collapse_new_tets :: "TetAttr list \<Rightarrow> int list \<Rightarrow> int \<Rightarrow> int \<Rightarrow> int list list" where
  "collapse_new_tets ta old_tids v1 v2 =
     map (\<lambda>t. let line_tet = conn (ta ! nat t); v1_i = id_in_array line_tet v1
               in if 0 \<le> v1_i then line_tet[nat v1_i := v2] else line_tet)
         (filter (\<lambda>t. \<not> 0 \<le> id_in_array (conn (ta ! nat t)) v2) old_tids)"

text \<open>The vertices spanned by a list of tets (a \<open>std::set<int>\<close>), without repetition.\<close>

definition spanned_verts :: "int list list \<Rightarrow> int list" where
  "spanned_verts tets = remdups (concat tets)"

text \<open>
  \<open>new_verts.size() != old_verts.size() - 1\<close> is computed in \<open>size_t\<close>: for an empty
  \<open>old_verts\<close> the right-hand side wraps around to \<open>2^64 - 1\<close>.
\<close>

definition link_violated :: "int list list \<Rightarrow> int list list \<Rightarrow> bool" where
  "link_violated old_tets new_tets =
     (int (length (spanned_verts new_tets)) \<noteq>
        (if spanned_verts old_tets = [] then 2 ^ 64 - 1
         else int (length (spanned_verts old_tets)) - 1))"

text \<open>The test of line 811: \<open>after > threshold && before < after\<close>.\<close>

definition collapse_quality_reject :: "dbl \<Rightarrow> dbl \<Rightarrow> dbl \<Rightarrow> bool" where
  "collapse_quality_reject threshold before_quality after_quality =
     (dless threshold after_quality \<and> dless before_quality after_quality)"

definition nb_pids :: "bool \<Rightarrow> TetAttr list \<Rightarrow> int list list \<Rightarrow> int \<Rightarrow> int list option" where
  "nb_pids dbg ta vc v_id = do {
     assert_that dbg (list_all (\<lambda>t. \<not> is_removed (ta ! nat t)) (vc ! nat v_id));
     Some (sort (concat (map (\<lambda>t. map (\<lambda>j. prism_id (ta ! nat t) ! j)
                                     (filter (\<lambda>j. conn (ta ! nat t) ! j \<noteq> v_id
                                                 \<and> prism_id (ta ! nat t) ! j \<noteq> -1) [0, 1, 2, 3]))
                             (vc ! nat v_id))))
   }"

text \<open>
  The boundary block of \<open>collapse_edge\<close>. \<open>moved_tris.reserve(n0 + n1 - 4)\<close> is computed in
  \<open>size_t\<close>: below four neighbours it asks for more than \<open>max_size()\<close> and throws.
  \<open>Some None\<close> is the refusal of the shell oracle.
\<close>

definition collapse_shell ::
  "('p, 'g) kernel \<Rightarrow> bool \<Rightarrow> ('p, 'g) mesh \<Rightarrow> int \<Rightarrow> int \<Rightarrow>
   (('p, 'g) mesh \<times> int list \<times> int list list) option option" where
  "collapse_shell K dbg s v1_id v2_id = do {
     neighbor0 \<leftarrow> nb_pids dbg (tet_attrs s) (vert_conn s) v1_id;
     neighbor1 \<leftarrow> nb_pids dbg (tet_attrs s) (vert_conn s) v2_id;
     let u1 = mid_id (vert_attrs s ! nat v2_id);
     let u0 = mid_id (vert_attrs s ! nat v1_id);
     let Fs = pc_F (pc s);
     assert_that dbg (0 \<le> u1 \<and> 0 \<le> u0);
     require (4 \<le> length neighbor0 + length neighbor1);
     assert_that dbg (list_all (\<lambda>f. Fs ! nat f ! 0 \<noteq> -1) neighbor0);
     let old_fid = neighbor0;
     let new_fid = filter (\<lambda>f. id_in_array (Fs ! nat f) u1 = -1) neighbor0;
     moved_tris \<leftarrow> those (map (\<lambda>f. replace dbg (Fs ! nat f) u0 u1) new_fid);
     assert_that dbg (length old_fid = length new_fid + 2);
     let (flag, new_tracks) =
       attempt_shell_operation K (pc s) (pc_track_ref (pc s)) (opts s) (Fin (-1)) old_fid moved_tris;
     if flag \<noteq> 0 then Some None
     else do {
       (c', shifted) \<leftarrow> update_pc K dbg (pc s) old_fid new_fid moved_tris new_tracks;
       Some (Some (s\<lparr>pc := c',
                     vert_attrs := (vert_attrs s)
                       [nat v1_id := (vert_attrs s ! nat v1_id)
                                       \<lparr>mid_id := mid_id (vert_attrs s ! nat v2_id)\<rparr>]\<rparr>,
                   new_fid, shifted))
     }
   }"

definition collapse_edge ::
  "('p, 'g) kernel \<Rightarrow> bool \<Rightarrow> ('p, 'g) mesh \<Rightarrow> int \<Rightarrow> int \<Rightarrow> dbl \<Rightarrow> (bool \<times> ('p, 'g) mesh) option"
  where
  "collapse_edge K dbg s v1_id v2_id size_control =
     (let nb1 = vert_conn s ! nat v1_id;
          nb2 = vert_conn s ! nat v2_id;
          affected = nb1;
          mid1 = mid_id (vert_attrs s ! nat v1_id);
          mid2 = mid_id (vert_attrs s ! nat v2_id)
      in do {
        assert_that dbg (set_inter nb1 nb2 \<noteq> []);
        if mid1 \<noteq> -1 \<and> mid2 = -1 then Some (False, s)
        else do {
          let bnd_faces = edge_adjacent_boundary_face (tet_attrs s) (vert_conn s) v1_id v2_id;
          if bnd_faces = [] \<and> (mid1 \<noteq> -1 \<and> mid2 \<noteq> -1) then Some (False, s)
          else do {
            let old_tets = map (\<lambda>t. conn (tet_attrs s ! nat t)) affected;
            let before_quality = compute_quality K (vert_attrs s) old_tets;
            let old_tids = nb1;
            assert_that dbg (list_all (\<lambda>t. 0 \<le> id_in_array (conn (tet_attrs s ! nat t)) v1_id) old_tids);
            let new_tets = collapse_new_tets (tet_attrs s) old_tids v1_id v2_id;
            assert_that dbg (length new_tets < length old_tids);
            if link_violated old_tets new_tets then Some (False, s)
            else do {
              let after_quality = compute_quality K (vert_attrs s) new_tets;
              if collapse_quality_reject (collapse_quality_threshold (opts s)) before_quality
                   after_quality
              then Some (False, s)
              else if dless size_control (max_tetra_sizes K (vert_attrs s) new_tets)
              then Some (False, s)
              else if \<not> list_all (tetra_validity K (vert_attrs s)) new_tets then Some (False, s)
              else do {
                assert_that dbg (list_all (\<lambda>f. pc_F (pc s) ! nat f ! 0 \<noteq> -1) bnd_faces);
                r \<leftarrow> (if bnd_faces \<noteq> [] then collapse_shell K dbg s v1_id v2_id
                       else Some (Some (s, [], [])));
                case r of
                  None \<Rightarrow> Some (False, s)
                | Some (s1, new_fid, moved_tris) \<Rightarrow> do {
                    let s2 = s1\<lparr>vert_conn := (vert_conn s1)[nat v1_id := []]\<rparr>;
                    s3 \<leftarrow> commit K dbg s2 affected new_tets new_fid moved_tris;
                    let s4 = s3\<lparr>vert_attrs := (vert_attrs s3)
                                  [nat v1_id := (vert_attrs s3 ! nat v1_id)
                                                  \<lparr>pos := vec_zero K, mid_id := -1\<rparr>]\<rparr>;
                    audited K s4
                  }
              }
            }
          }
        }
      })"

section \<open>swap\_edge and swap\_face\<close>

text \<open>The loop of \<open>swap_edge\<close> that finds the three vertices opposite the edge.\<close>

definition swap_edge_opposite ::
  "TetAttr list \<Rightarrow> int \<Rightarrow> int \<Rightarrow> int \<Rightarrow> int \<Rightarrow> int \<Rightarrow> int \<times> int \<times> int" where
  "swap_edge_opposite ta v1_id v2_id t0_id t1_id t2_id =
     fold (\<lambda>j (n0_id, n1_id, n2_id).
             let v0j = conn (ta ! nat t0_id) ! j;
                 n1' = (if v0j \<noteq> v1_id \<and> v0j \<noteq> v2_id \<and> id_in_array (conn (ta ! nat t1_id)) v0j \<noteq> -1
                        then v0j else n1_id);
                 n2' = (if v0j \<noteq> v1_id \<and> v0j \<noteq> v2_id \<and> id_in_array (conn (ta ! nat t2_id)) v0j \<noteq> -1
                        then v0j else n2_id);
                 n0' = (if id_in_array (conn (ta ! nat t0_id)) (conn (ta ! nat t1_id) ! j) = -1
                        then conn (ta ! nat t1_id) ! j else n0_id)
             in (n0', n1', n2'))
          [0, 1, 2, 3] (-1, -1, -1)"

text \<open>The local \<open>replace\<close> of \<open>swap_edge\<close> overwrites every entry equal to \<open>v0\<close>.\<close>

definition replace_all :: "int list \<Rightarrow> int \<Rightarrow> int \<Rightarrow> int list" where
  "replace_all arr v0 v1 = map (\<lambda>x. if x = v0 then v1 else x) arr"

definition swap_edge_new_tets :: "bool \<Rightarrow> TetAttr list \<Rightarrow> int \<Rightarrow> int \<Rightarrow> int list \<Rightarrow> int list list option"
  where
  "swap_edge_new_tets dbg ta v1_id v2_id affected = do {
     let t0_id = affected ! 0;
     let t1_id = affected ! 1;
     let t2_id = affected ! 2;
     let (n0_id, n1_id, n2_id) = swap_edge_opposite ta v1_id v2_id t0_id t1_id t2_id;
     assert_that dbg (n0_id \<noteq> n1_id \<and> n1_id \<noteq> n2_id);
     Some [replace_all (conn (ta ! nat t0_id)) v2_id n0_id,
           replace_all (conn (ta ! nat t1_id)) v1_id n2_id]
   }"

definition swap_edge ::
  "('p, 'g) kernel \<Rightarrow> bool \<Rightarrow> ('p, 'g) mesh \<Rightarrow> int \<Rightarrow> int \<Rightarrow> dbl \<Rightarrow> (bool \<times> ('p, 'g) mesh) option"
  where
  "swap_edge K dbg s v1_id v2_id size_control =
     (let affected = set_inter (vert_conn s ! nat v1_id) (vert_conn s ! nat v2_id) in
      do {
        assert_that dbg (affected \<noteq> []);
        if length affected \<noteq> 3 then Some (False, s)
        else if edge_adjacent_boundary_face (tet_attrs s) (vert_conn s) v1_id v2_id \<noteq> []
        then Some (False, s)
        else do {
          let old_tets = map (\<lambda>t. conn (tet_attrs s ! nat t)) affected;
          let before_quality = compute_quality K (vert_attrs s) old_tets;
          new_tets \<leftarrow> swap_edge_new_tets dbg (tet_attrs s) v1_id v2_id affected;
          if dless size_control (max_tetra_sizes K (vert_attrs s) new_tets) then Some (False, s)
          else if dless before_quality (compute_quality K (vert_attrs s) new_tets)
          then Some (False, s)
          else if \<not> list_all (tetra_validity K (vert_attrs s)) new_tets then Some (False, s)
          else do {
            s1 \<leftarrow> commit K dbg s affected new_tets [] [];
            audited K s1
          }
        }
      })"

text \<open>
  \<open>find_other(tet, tri)\<close>: the first entry of the tet that is not in the triangle; with
  none it runs into \<open>assert(false)\<close> and returns \<open>-1\<close> in a release build.
\<close>

definition find_other :: "bool \<Rightarrow> int list \<Rightarrow> int list \<Rightarrow> int option" where
  "find_other dbg tet tri =
     (case filter (\<lambda>x. id_in_array tri x = -1) tet of
        x # _ \<Rightarrow> Some x
      | [] \<Rightarrow> if dbg then None else Some (-1))"

definition swap_face ::
  "('p, 'g) kernel \<Rightarrow> bool \<Rightarrow> ('p, 'g) mesh \<Rightarrow> int \<Rightarrow> int \<Rightarrow> int \<Rightarrow> dbl \<Rightarrow>
   (bool \<times> ('p, 'g) mesh) option" where
  "swap_face K dbg s v0_id v1_id v2_id size_control =
     (let inter0_1 = set_inter (vert_conn s ! nat v0_id) (vert_conn s ! nat v1_id);
          affected = set_inter inter0_1 (vert_conn s ! nat v2_id)
      in
      if length affected \<noteq> 2 then do {
        assert_that dbg
          (0 < length (edge_adjacent_boundary_face (tet_attrs s) (vert_conn s) v0_id v1_id));
        Some (False, s)
      }
      else do {
        let old_tets = map (\<lambda>t. conn (tet_attrs s ! nat t)) affected;
        let before_quality = compute_quality K (vert_attrs s) old_tets;
        let t0 = hd affected;
        let t1 = last affected;
        u0 \<leftarrow> find_other dbg (conn (tet_attrs s ! nat t0)) [v0_id, v1_id, v2_id];
        u1 \<leftarrow> find_other dbg (conn (tet_attrs s ! nat t1)) [v0_id, v1_id, v2_id];
        a \<leftarrow> replace dbg (conn (tet_attrs s ! nat t0)) v0_id u1;
        b \<leftarrow> replace dbg (conn (tet_attrs s ! nat t0)) v1_id u1;
        c \<leftarrow> replace dbg (conn (tet_attrs s ! nat t0)) v2_id u1;
        let new_tets = [a, b, c];
        if \<not> list_all (tetra_validity K (vert_attrs s)) new_tets then Some (False, s)
        else if dless before_quality (compute_quality K (vert_attrs s) new_tets)
        then Some (False, s)
        else if dless size_control (max_tetra_sizes K (vert_attrs s) new_tets) then Some (False, s)
        else do {
          s1 \<leftarrow> commit K dbg s affected new_tets [] [];
          audited K s1
        }
      })"

section \<open>smooth\_vertex\<close>

text \<open>
  \<open>get_newton_position\<close>: every tet around \<open>v0\<close> is reordered so that \<open>v0\<close> comes first, and
  the twelve coordinates of its vertices (here: its four positions) go to the solver.
\<close>

definition orient_preserve_tet_reorder :: "bool \<Rightarrow> int list \<Rightarrow> int \<Rightarrow> int list option" where
  "orient_preserve_tet_reorder dbg cn v0 = do {
     let vl_id = id_in_array cn v0;
     assert_that dbg (vl_id \<noteq> -1);
     let reorder = [[0, 1, 2, 3], [1, 0, 3, 2], [2, 0, 1, 3], [3, 1, 0, 2 :: nat]];
     Some (map (\<lambda>j. cn ! (reorder ! nat vl_id ! j)) [0, 1, 2, 3])
   }"

definition get_newton_position ::
  "('p, 'g) kernel \<Rightarrow> bool \<Rightarrow> 'p VertAttr list \<Rightarrow> TetAttr list \<Rightarrow> int list \<Rightarrow> int \<Rightarrow> 'p option"
  where
  "get_newton_position K dbg va ta nb v0 = do {
     assembles \<leftarrow> those (map (\<lambda>t. do {
                                local_verts \<leftarrow> orient_preserve_tet_reorder dbg (conn (ta ! nat t)) v0;
                                Some (map (\<lambda>i. pos (va ! nat (local_verts ! i))) [0, 1, 2, 3])
                              }) nb);
     Some (newton_position_from_stack K assembles)
   }"

text \<open>
  \<open>get_snap_position\<close>: the first tracked reference triangle, in increasing order, that
  the segment from the top to the base of the pillar meets.
\<close>

definition get_snap_position ::
  "('p, 'g) kernel \<Rightarrow> ('p, 'g) PrismCage \<Rightarrow> int list \<Rightarrow> int \<Rightarrow> 'p option" where
  "get_snap_position K c neighbor_pris v0 =
     (let total_trackee = sort (remdups (concat (map (\<lambda>f. pc_track_ref c ! nat f) neighbor_pris)));
          hits = List.map_filter
                   (\<lambda>f. segment_triangle_intersection K (pc_top c ! nat v0, pc_base c ! nat v0)
                           (pc_ref_V c ! nat (pc_ref_F c ! nat f ! 0),
                            pc_ref_V c ! nat (pc_ref_F c ! nat f ! 1),
                            pc_ref_V c ! nat (pc_ref_F c ! nat f ! 2)))
                   total_trackee
      in case hits of [] \<Rightarrow> None | x # _ \<Rightarrow> Some x)"

text \<open>The shell triangles around \<open>v0\<close>: tagged faces of its tets that are not opposite to it.\<close>

definition neighbor_prisms :: "TetAttr list \<Rightarrow> int list \<Rightarrow> int \<Rightarrow> int list" where
  "neighbor_prisms ta tet_nb v0 =
     concat (map (\<lambda>t. map (\<lambda>j. prism_id (ta ! nat t) ! j)
                         (filter (\<lambda>j. prism_id (ta ! nat t) ! j \<noteq> -1 \<and> conn (ta ! nat t) ! j \<noteq> v0)
                                 [0, 1, 2, 3]))
                 tet_nb)"

text \<open>
  The lambda \<open>rollback\<close> of \<open>smooth_vertex\<close>; \<open>old_pillar\<close> is a tuple of copies taken before
  any change (the conditional expression converts the tuple of references).
\<close>

definition smooth_rollback ::
  "int \<Rightarrow> 'p \<Rightarrow> int \<Rightarrow> 'p \<times> 'p \<times> 'p \<Rightarrow> ('p, 'g) mesh \<Rightarrow> ('p, 'g) mesh" where
  "smooth_rollback v0 old_pos pv0 old_pillar s =
     (let s1 = s\<lparr>vert_attrs := (vert_attrs s)[nat v0 := (vert_attrs s ! nat v0)\<lparr>pos := old_pos\<rparr>]\<rparr>
      in if pv0 \<noteq> -1
         then (case old_pillar of
                 (b, m, t) \<Rightarrow>
                   s1\<lparr>pc := (pc s1)\<lparr>pc_base := (pc_base (pc s1))[nat pv0 := b],
                                   pc_mid := (pc_mid (pc s1))[nat pv0 := m],
                                   pc_top := (pc_top (pc s1))[nat pv0 := t]\<rparr>\<rparr>)
         else s1)"

text \<open>
  The part of \<open>smooth_vertex\<close> that moves the vertex. The flag says whether the move was
  found; the state is the one at that moment (a failed pan or snap leaves its partial
  changes for \<open>rollback\<close>).
\<close>

definition set_pos :: "int \<Rightarrow> 'p \<Rightarrow> ('p, 'g) mesh \<Rightarrow> ('p, 'g) mesh" where
  "set_pos v0 p s = s\<lparr>vert_attrs := (vert_attrs s)[nat v0 := (vert_attrs s ! nat v0)\<lparr>pos := p\<rparr>]\<rparr>"

definition smooth_move ::
  "('p, 'g) kernel \<Rightarrow> bool \<Rightarrow> ('p, 'g) mesh \<Rightarrow> SmoothType \<Rightarrow> int \<Rightarrow> int list \<Rightarrow>
   (bool \<times> ('p, 'g) mesh) option" where
  "smooth_move K dbg s smooth_type v0 neighbor_pris =
     (let tet_nb = vert_conn s ! nat v0;
          pv0 = mid_id (vert_attrs s ! nat v0);
          c = pc s
      in
      if smooth_type = kInteriorNewton then do {
        assert_that dbg (neighbor_pris = []);
        p \<leftarrow> get_newton_position K dbg (vert_attrs s) (tet_attrs s) tet_nb v0;
        Some (True, set_pos v0 p s)
      }
      else do {
        assert_that dbg (pv0 \<noteq> -1);
        assert_that dbg (neighbor_pris \<noteq> []);
        let nbi = map (\<lambda>f. id_in_array (pc_F c ! nat f) pv0) neighbor_pris;
        let snap_mid = (smooth_type = kSurfaceSnap \<or> smooth_type = kShellPan);
        let panned =
          (if smooth_type = kShellPan
           then (case smoother_direction K (pc_base c) (pc_mid c) (pc_top c) (pc_F c)
                        (pc_num_freeze c) neighbor_pris nbi pv0 of
                   None \<Rightarrow> (False, s)
                 | Some d \<Rightarrow>
                     (True, s\<lparr>pc := c\<lparr>pc_base := (pc_base c)[nat pv0 := vec_add K (pc_base c ! nat pv0) d],
                                      pc_mid := (pc_mid c)[nat pv0 := vec_add K (pc_mid c ! nat pv0) d],
                                      pc_top := (pc_top c)[nat pv0 := vec_add K (pc_top c ! nat pv0) d]\<rparr>\<rparr>))
           else (True, s));
        let s1 = snd panned;
        let c1 = pc s1;
        if \<not> fst panned then Some (False, s1)
        else if snap_mid then
          (case get_snap_position K c1 neighbor_pris pv0 of
             None \<Rightarrow> do {
               assert_that dbg (smooth_type \<noteq> kSurfaceSnap);
               Some (False, s1)
             }
           | Some p \<Rightarrow>
               Some (True, (set_pos v0 p s1)\<lparr>pc := c1\<lparr>pc_mid := (pc_mid c1)[nat pv0 := p]\<rparr>\<rparr>))
        else
          (case (if smooth_type = kShellRotate then rotate K else zoom K)
                  (pc_base c1) (pc_mid c1) (pc_top c1) (pc_F c1) neighbor_pris nbi pv0
                  (target_thickness (opts s1)) of
             None \<Rightarrow> Some (False, s1)
           | Some (b, t) \<Rightarrow>
               Some (True, s1\<lparr>pc := c1\<lparr>pc_base := (pc_base c1)[nat pv0 := b],
                                       pc_top := (pc_top c1)[nat pv0 := t]\<rparr>\<rparr>))
      })"

text \<open>
  \<open>smooth_vertex\<close>. (The unused \<open>fmax\<close> of the source is left out.) \<open>tet_attrs\<close> and
  \<open>vert_conn\<close> are const references in the source; here they are the fields of the state
  that no branch writes.
\<close>

definition smooth_vertex ::
  "('p, 'g) kernel \<Rightarrow> bool \<Rightarrow> ('p, 'g) mesh \<Rightarrow> SmoothType \<Rightarrow> int \<Rightarrow> dbl \<Rightarrow>
   (bool \<times> ('p, 'g) mesh) option" where
  "smooth_vertex K dbg s smooth_type v0 size_control =
     (let tet_nb = vert_conn s ! nat v0;
          old_pos = pos (vert_attrs s ! nat v0);
          pv0 = mid_id (vert_attrs s ! nat v0);
          neighbor_pris = neighbor_prisms (tet_attrs s) tet_nb v0;
          old_pillar = (if pv0 \<noteq> -1
                        then (pc_base (pc s) ! nat pv0, pc_mid (pc s) ! nat pv0, pc_top (pc s) ! nat pv0)
                        else (vec_zero K, vec_zero K, vec_zero K));
          rollback = smooth_rollback v0 old_pos pv0 old_pillar
      in do {
        assert_that dbg (list_all (\<lambda>pid. 0 \<le> pid \<and> pid < int (length (pc_F (pc s)))) neighbor_pris);
        (moved, s1) \<leftarrow> smooth_move K dbg s smooth_type v0 neighbor_pris;
        if \<not> moved then Some (False, rollback s1)
        else if pv0 = -1 \<and>
                dless size_control
                  (max_tetra_sizes K (vert_attrs s1) (map (\<lambda>t. conn (tet_attrs s1 ! nat t)) tet_nb))
        then Some (False, rollback s1)
        else if \<not> list_all (\<lambda>ti. tetra_validity K (vert_attrs s1) (conn (tet_attrs s1 ! nat ti))) tet_nb
        then Some (False, rollback s1)
        else if pv0 \<noteq> -1 then do {
          let old_fids = neighbor_prisms (tet_attrs s1) tet_nb v0;
          assert_that dbg (old_fids \<noteq> []);
          let moved_tris = map (\<lambda>f. pc_F (pc s1) ! nat f) old_fids;
          let (flag, new_tracks) =
            attempt_shell_operation K (pc s1) (pc_track_ref (pc s1)) (opts s1) (Fin (10 ^ 10))
              old_fids moved_tris;
          if flag \<noteq> 0 then Some (False, rollback s1)
          else do {
            (c', shifted) \<leftarrow> update_pc K dbg (pc s1) old_fids old_fids moved_tris new_tracks;
            Some (True, s1\<lparr>pc := c'\<rparr>)
          }
        }
        else Some (True, s1)
      })"

section \<open>Well-formed states\<close>

text \<open>
  Every index stored in the state points inside the vector it indexes. On such a state
  (and with vertex arguments inside \<open>vert_conn\<close>) the reads of the editors are the reads
  of the C++ code.
\<close>

definition index_ok :: "nat \<Rightarrow> int \<Rightarrow> bool" where
  "index_ok n i = (0 \<le> i \<and> i < int n)"

definition in_bounds :: "('p, 'g) mesh \<Rightarrow> bool" where
  "in_bounds s =
     (length (vert_conn s) = length (vert_attrs s)
      \<and> list_all (list_all (index_ok (length (tet_attrs s)))) (vert_conn s)
      \<and> list_all (\<lambda>t. length (conn t) = 4 \<and> length (prism_id t) = 4
                      \<and> list_all (index_ok (length (vert_attrs s))) (conn t)
                      \<and> list_all (\<lambda>p. p = -1 \<or> index_ok (length (pc_F (pc s))) p) (prism_id t))
                 (tet_attrs s)
      \<and> list_all (\<lambda>v. mid_id v = -1 \<or> index_ok (length (pc_mid (pc s))) (mid_id v)) (vert_attrs s)
      \<and> length (pc_top (pc s)) = length (pc_mid (pc s))
      \<and> length (pc_base (pc s)) = length (pc_mid (pc s))
      \<and> length (target_adjustment (opts s)) = length (pc_mid (pc s))
      \<and> length (pc_track_ref (pc s)) = length (pc_F (pc s))
      \<and> list_all (\<lambda>f. length f = 3 \<and> list_all (\<lambda>v. v = -1 \<or> index_ok (length (pc_mid (pc s))) v) f)
                 (pc_F (pc s)))"

text \<open>
  The adjacency invariant of the data model: the list of a vertex is strictly increasing
  and holds exactly the non-removed tets that contain the vertex.
\<close>

definition tets_of :: "TetAttr list \<Rightarrow> int \<Rightarrow> int list" where
  "tets_of ta v =
     map int (filter (\<lambda>t. \<not> is_removed (ta ! t) \<and> v \<in> set (conn (ta ! t))) [0..<length ta])"

definition adjacency_consistent :: "('p, 'g) mesh \<Rightarrow> bool" where
  "adjacency_consistent s =
     list_all (\<lambda>v. vert_conn s ! v = tets_of (tet_attrs s) (int v)) [0..<length (vert_conn s)]"

section \<open>AdaMesh: rounding and quality\<close>

text \<open>
  \<open>AdaMesh\<close> derives from \<open>wmtk::TetMesh\<close>, which is not among the sources: the four
  queries of the base class that \<open>round\<close>, \<open>is_invert\<close> and \<open>quality\<close> call are fields of the
  model (\<open>'t\<close> is \<open>TetMesh::Tuple\<close>). A vertex keeps its floating-point position, its
  rational position and the flag \<open>rounded\<close>.
\<close>

record VertexAttributes =
  m_posf :: "dbl \<times> dbl \<times> dbl"
  m_posr :: "rat \<times> rat \<times> rat"
  rounded :: bool
  v_is_removed :: bool
  m_is_on_surface :: bool
  on_bbox_faces :: "int list"

record 't TetMesh =
  tuple_from_vertex :: "nat \<Rightarrow> 't"
  is_valid :: "'t \<Rightarrow> bool"
  get_one_ring_tets_for_vertex :: "'t \<Rightarrow> 't list"
  oriented_tet_vids :: "'t \<Rightarrow> nat list"

record 't AdaMesh = "'t TetMesh" +
  vertex_attrs :: "VertexAttributes list"

text \<open>
  The numeric collaborators: the two AMIPS energies and the conversion of a double to a
  rational.
\<close>

record numerics =
  AMIPS_energy_rational_p3 :: "rat list \<Rightarrow> dbl"
  AMIPS_energy_stable_p3 :: "dbl list \<Rightarrow> dbl"
  rational_of_double :: "dbl \<Rightarrow> rat"

definition is_invert :: "'t AdaMesh \<Rightarrow> 't \<Rightarrow> bool" where
  "is_invert m t = (if \<not> is_valid m t then False else True)"

definition AdaMesh_round :: "numerics \<Rightarrow> 't AdaMesh \<Rightarrow> nat \<Rightarrow> bool \<times> 't AdaMesh" where
  "AdaMesh_round N m i =
     (let v = tuple_from_vertex m i in
      if \<not> is_valid m v then (True, m)
      else if rounded (vertex_attrs m ! i) then (True, m)
      else
        let old_pos = m_posr (vertex_attrs m ! i);
            posf = m_posf (vertex_attrs m ! i);
            m1 = m\<lparr>vertex_attrs := (vertex_attrs m)
                      [i := (vertex_attrs m ! i)
                              \<lparr>m_posr := (rational_of_double N (fst posf),
                                         rational_of_double N (fst (snd posf)),
                                         rational_of_double N (snd (snd posf)))\<rparr>]\<rparr>;
            conn_tets = get_one_ring_tets_for_vertex m1 v;
            m2 = m1\<lparr>vertex_attrs := (vertex_attrs m1)[i := (vertex_attrs m1 ! i)\<lparr>rounded := True\<rparr>]\<rparr>
        in if list_ex (is_invert m2) conn_tets
           then (False,
                 m2\<lparr>vertex_attrs := (vertex_attrs m2)
                      [i := (vertex_attrs m2 ! i)\<lparr>rounded := False, m_posr := old_pos\<rparr>]\<rparr>)
           else (True, m2))"

text \<open>The lambda \<open>rational_energy_compute\<close>: the rational positions of all four vertices.\<close>

definition coords :: "'a \<times> 'a \<times> 'a \<Rightarrow> 'a list" where
  "coords p = [fst p, fst (snd p), snd (snd p)]"

definition rational_energy_compute :: "numerics \<Rightarrow> VertexAttributes list \<Rightarrow> nat list \<Rightarrow> dbl" where
  "rational_energy_compute N va vs =
     AMIPS_energy_rational_p3 N (concat (map (\<lambda>j. coords (m_posr (va ! (vs ! j)))) [0, 1, 2, 3]))"

text \<open>
  The loop of \<open>quality\<close> over \<open>j\<close>: it leaves with the rational energy at the first vertex
  that is not rounded, and otherwise copies the three floating-point coordinates of
  vertex \<open>j\<close> into \<open>T\<close>. \<open>T\<close> starts with whatever the uninitialised array holds.
\<close>

fun quality_loop ::
  "numerics \<Rightarrow> VertexAttributes list \<Rightarrow> nat list \<Rightarrow> nat list \<Rightarrow> dbl list \<Rightarrow> dbl \<Rightarrow> dbl \<times> dbl list"
  where
  "quality_loop N va vs [] T energy = (energy, T)"
| "quality_loop N va vs (j # js) T energy =
     (if \<not> rounded (va ! (vs ! j)) then (rational_energy_compute N va vs, T)
      else quality_loop N va vs js
             (T[j * 3 := fst (m_posf (va ! (vs ! j))),
                j * 3 + 1 := fst (snd (m_posf (va ! (vs ! j)))),
                j * 3 + 2 := snd (snd (m_posf (va ! (vs ! j))))])
             energy)"

text \<open>The literals \<open>27 - 1e-3\<close> and \<open>1e50\<close>, by their decimal values.\<close>

definition min_valid_energy :: dbl where
  "min_valid_energy = Fin (27 - 1 / 1000)"

definition MAX_ENERGY :: dbl where
  "MAX_ENERGY = Fin (10 ^ 50)"

definition AdaMesh_quality :: "numerics \<Rightarrow> 't AdaMesh \<Rightarrow> dbl list \<Rightarrow> 't \<Rightarrow> dbl" where
  "AdaMesh_quality N m T0 t =
     (let vs = oriented_tet_vids m t;
          (energy, T) = quality_loop N (vertex_attrs m) vs [0, 1, 2, 3] T0 (Fin (-1));
          energy = (if deq energy (Fin (-1)) then AMIPS_energy_stable_p3 N T else energy)
      in if isinf energy \<or> isnan energy \<or> dless energy min_valid_energy then MAX_ENERGY
         else energy)"

section \<open>A concrete kernel and two small meshes\<close>

text \<open>
  The theorems below hold for every kernel. To run the editors on explicit inputs, one
  kernel is fixed here: exact rational coordinates, a tet is valid when its orientation
  determinant is positive, the quality is the cube of the summed squared edge lengths
  over the squared determinant (scale-free, larger is worse), the size is the longest
  squared edge, boundary facets are the faces met once, and the shell oracle accepts every
  proposal with empty tracked sets.
\<close>

type_synonym vec3 = "rat \<times> rat \<times> rat"

definition vsub :: "vec3 \<Rightarrow> vec3 \<Rightarrow> vec3" where
  "vsub a b = (fst a - fst b, fst (snd a) - fst (snd b), snd (snd a) - snd (snd b))"

definition orient3d :: "vec3 \<Rightarrow> vec3 \<Rightarrow> vec3 \<Rightarrow> vec3 \<Rightarrow> rat" where
  "orient3d p0 p1 p2 p3 =
     (case (vsub p1 p0, vsub p2 p0, vsub p3 p0) of
        ((a0, a1, a2), (b0, b1, b2), (c0, c1, c2)) \<Rightarrow>
          a0 * (b1 * c2 - b2 * c1) - a1 * (b0 * c2 - b2 * c0) + a2 * (b0 * c1 - b1 * c0))"

definition dist2 :: "vec3 \<Rightarrow> vec3 \<Rightarrow> rat" where
  "dist2 a b = (case vsub a b of (x, y, z) \<Rightarrow> x * x + y * y + z * z)"

definition ex_quality :: "vec3 \<Rightarrow> vec3 \<Rightarrow> vec3 \<Rightarrow> vec3 \<Rightarrow> dbl" where
  "ex_quality p0 p1 p2 p3 =
     (let e = dist2 p0 p1 + dist2 p0 p2 + dist2 p0 p3 + dist2 p1 p2 + dist2 p1 p3 + dist2 p2 p3;
          d = orient3d p0 p1 p2 p3
      in if d = 0 then PInf else Fin (e * e * e / (d * d)))"

definition ex_size :: "vec3 \<Rightarrow> vec3 \<Rightarrow> vec3 \<Rightarrow> vec3 \<Rightarrow> dbl" where
  "ex_size p0 p1 p2 p3 =
     Fin (fold max [dist2 p0 p2, dist2 p0 p3, dist2 p1 p2, dist2 p1 p3, dist2 p2 p3] (dist2 p0 p1))"

definition ex_boundary_facets :: "int list list \<Rightarrow> int list list" where
  "ex_boundary_facets tets =
     (let faces = concat (map (\<lambda>t. map (sorted_face t) [0, 1, 2, 3]) tets)
      in filter (\<lambda>f. count_list faces f = 1) faces)"

definition ex_mid :: "vec3 \<Rightarrow> vec3 \<Rightarrow> vec3" where
  "ex_mid a b = (fst a + fst b, fst (snd a) + fst (snd b), snd (snd a) + snd (snd b))"

definition ex_half :: "vec3 \<Rightarrow> vec3" where
  "ex_half a = (fst a / 2, fst (snd a) / 2, snd (snd a) / 2)"

definition ex_centroid :: "vec3 list \<Rightarrow> vec3" where
  "ex_centroid ps = (case fold ex_mid ps (0, 0, 0) of
                       (x, y, z) \<Rightarrow> (x / of_nat (length ps), y / of_nat (length ps), z / of_nat (length ps)))"

definition ex_kernel :: "(vec3, unit) kernel" where
  "ex_kernel =
     \<lparr>tetra_validity = (\<lambda>va t. 0 < orient3d (tet_pos va t 0) (tet_pos va t 1) (tet_pos va t 2) (tet_pos va t 3)),
      tetra_quality = ex_quality,
      circumradi2 = ex_size,
      attempt_shell_operation = (\<lambda>c tr opt q old_fid moved. (0, map (\<lambda>_. []) moved)),
      triangle_shifts = (\<lambda>x. x),
      grid_remove_element = (\<lambda>f g. g),
      grid_insert_triangles = (\<lambda>V Fs fid g. g),
      boundary_facets = ex_boundary_facets,
      newton_position_from_stack = (\<lambda>st. ex_centroid (concat (map tl st))),
      smoother_direction = (\<lambda>b m t Fs nf nb nbi v. None),
      zoom = (\<lambda>b m t Fs nb nbi v th. None),
      rotate = (\<lambda>b m t Fs nb nbi v th. None),
      segment_triangle_intersection = (\<lambda>sg tri. None),
      vec_add = ex_mid,
      vec_half = ex_half,
      vec_zero = (0, 0, 0),
      vec_neq = (\<lambda>a b. a \<noteq> b),
      dbl_add = (\<lambda>a b. case (a, b) of (Fin x, Fin y) \<Rightarrow> Fin (x + y) | _ \<Rightarrow> NaN),
      dbl_half = (\<lambda>a. case a of Fin x \<Rightarrow> Fin (x / 2) | _ \<Rightarrow> a)\<rparr>"

text \<open>
  \<open>mesh_A\<close>: the tetrahedron with corners 0..3 on the shell (four shell triangles) and the
  interior vertex 4, which splits it into four tets. \<open>mesh_A_collapsed\<close> is what the
  collapse of vertex 4 into vertex 0 leaves. \<open>mesh_B\<close>: three tets around the interior
  edge (0, 1) of a triangular bipyramid whose five vertices and six faces are on the shell.
\<close>

definition mesh_A :: "(vec3, unit) mesh" where
  "mesh_A =
     \<lparr>pc = \<lparr>pc_base = [(3, 0, 0), (0, 3, 0), (0, 0, 3), (1/4, 1/4, 1/4)],
            pc_mid = [(4, 0, 0), (0, 4, 0), (0, 0, 4), (0, 0, 0)],
            pc_top = [(5, 0, 0), (0, 5, 0), (0, 0, 5), (-1, -1, -1)],
            pc_F = [[0, 1, 2], [0, 1, 3], [0, 2, 3], [1, 2, 3]],
            pc_track_ref = [[0], [1], [2], [3]],
            pc_top_grid = None,
            pc_base_grid = None,
            pc_ref_F = [[0, 1, 2], [0, 1, 3], [0, 2, 3], [1, 2, 3]],
            pc_ref_V = [(4, 0, 0), (0, 4, 0), (0, 0, 4), (0, 0, 0)],
            pc_num_freeze = 0\<rparr>,
      opts = \<lparr>target_adjustment = [Fin 1, Fin 1, Fin 1, Fin 1],
              collapse_quality_threshold = Fin 30,
              target_thickness = Fin (1/10)\<rparr>,
      vert_attrs = [\<lparr>pos = (4, 0, 0), mid_id = 0\<rparr>, \<lparr>pos = (0, 4, 0), mid_id = 1\<rparr>,
                    \<lparr>pos = (0, 0, 4), mid_id = 2\<rparr>, \<lparr>pos = (0, 0, 0), mid_id = 3\<rparr>,
                    \<lparr>pos = (1, 1, 1), mid_id = -1\<rparr>],
      tet_attrs = [\<lparr>prism_id = [0, -1, -1, -1], is_removed = False, conn = [4, 0, 1, 2]\<rparr>,
                   \<lparr>prism_id = [1, -1, -1, -1], is_removed = False, conn = [4, 1, 0, 3]\<rparr>,
                   \<lparr>prism_id = [2, -1, -1, -1], is_removed = False, conn = [4, 0, 2, 3]\<rparr>,
                   \<lparr>prism_id = [3, -1, -1, -1], is_removed = False, conn = [4, 2, 1, 3]\<rparr>],
      vert_conn = [[0, 1, 2], [0, 1, 3], [0, 2, 3], [1, 2, 3], [0, 1, 2, 3]]\<rparr>"

definition mesh_A_collapsed :: "(vec3, unit) mesh" where
  "mesh_A_collapsed =
     mesh_A
     \<lparr>vert_attrs := [\<lparr>pos = (4, 0, 0), mid_id = 0\<rparr>, \<lparr>pos = (0, 4, 0), mid_id = 1\<rparr>,
                     \<lparr>pos = (0, 0, 4), mid_id = 2\<rparr>, \<lparr>pos = (0, 0, 0), mid_id = 3\<rparr>,
                     \<lparr>pos = (0, 0, 0), mid_id = -1\<rparr>],
      tet_attrs := [\<lparr>prism_id = [0, -1, -1, -1], is_removed = True, conn = [4, 0, 1, 2]\<rparr>,
                    \<lparr>prism_id = [1, -1, -1, -1], is_removed = True, conn = [4, 1, 0, 3]\<rparr>,
                    \<lparr>prism_id = [2, -1, -1, -1], is_removed = True, conn = [4, 0, 2, 3]\<rparr>,
                    \<lparr>prism_id = [3, -1, -1, -1], is_removed = True, conn = [4, 2, 1, 3]\<rparr>,
                    \<lparr>prism_id = [3, 1, 2, 0], is_removed = False, conn = [0, 2, 1, 3]\<rparr>],
      vert_conn := [[4], [4], [4], [4], []]\<rparr>"

definition mesh_B :: "(vec3, unit) mesh" where
  "mesh_B =
     \<lparr>pc = \<lparr>pc_base = [(0, 0, 1/2), (0, 0, -1/2), (1/2, 0, 0), (-1/2, 1/2, 0), (-1/2, -1/2, 0)],
            pc_mid = [(0, 0, 1), (0, 0, -1), (1, 0, 0), (-1, 1, 0), (-1, -1, 0)],
            pc_top = [(0, 0, 2), (0, 0, -2), (2, 0, 0), (-2, 2, 0), (-2, -2, 0)],
            pc_F = [[0, 2, 3], [0, 3, 4], [0, 4, 2], [1, 3, 2], [1, 4, 3], [1, 2, 4]],
            pc_track_ref = [[0], [1], [2], [3], [4], [5]],
            pc_top_grid = None,
            pc_base_grid = None,
            pc_ref_F = [[0, 2, 3], [0, 3, 4], [0, 4, 2], [1, 3, 2], [1, 4, 3], [1, 2, 4]],
            pc_ref_V = [(0, 0, 1), (0, 0, -1), (1, 0, 0), (-1, 1, 0), (-1, -1, 0)],
            pc_num_freeze = 0\<rparr>,
      opts = \<lparr>target_adjustment = [Fin 1, Fin 1, Fin 1, Fin 1, Fin 1],
              collapse_quality_threshold = Fin 30,
              target_thickness = Fin (1/10)\<rparr>,
      vert_attrs = [\<lparr>pos = (0, 0, 1), mid_id = 0\<rparr>, \<lparr>pos = (0, 0, -1), mid_id = 1\<rparr>,
                    \<lparr>pos = (1, 0, 0), mid_id = 2\<rparr>, \<lparr>pos = (-1, 1, 0), mid_id = 3\<rparr>,
                    \<lparr>pos = (-1, -1, 0), mid_id = 4\<rparr>],
      tet_attrs = [\<lparr>prism_id = [3, 0, -1, -1], is_removed = False, conn = [0, 1, 3, 2]\<rparr>,
                   \<lparr>prism_id = [4, 1, -1, -1], is_removed = False, conn = [0, 1, 4, 3]\<rparr>,
                   \<lparr>prism_id = [5, 2, -1, -1], is_removed = False, conn = [0, 1, 2, 4]\<rparr>],
      vert_conn = [[0, 1, 2], [0, 1, 2], [0, 2], [0, 1], [1, 2]]\<rparr>"

text \<open>
  Doubles are a grid, and the midpoint of two neighbouring grid points is rounded to one
  of them. \<open>ex_kernel_grid\<close> is \<open>ex_kernel\<close> with such a halving (coordinates are whole
  numbers, halves are rounded down). \<open>mesh_A_after_rejected_split\<close> is \<open>mesh_A\<close> with the
  last entry of the three shell position arrays gone.
\<close>

definition ex_half_grid :: "vec3 \<Rightarrow> vec3" where
  "ex_half_grid a = (of_int \<lfloor>fst a / 2\<rfloor>, of_int \<lfloor>fst (snd a) / 2\<rfloor>, of_int \<lfloor>snd (snd a) / 2\<rfloor>)"

definition ex_kernel_grid :: "(vec3, unit) kernel" where
  "ex_kernel_grid = ex_kernel\<lparr>vec_half := ex_half_grid\<rparr>"

definition mesh_A_after_rejected_split :: "(vec3, unit) mesh" where
  "mesh_A_after_rejected_split =
     mesh_A\<lparr>pc := (pc mesh_A)\<lparr>pc_base := [(3, 0, 0), (0, 3, 0), (0, 0, 3)],
                              pc_mid := [(4, 0, 0), (0, 4, 0), (0, 0, 4)],
                              pc_top := [(5, 0, 0), (0, 5, 0), (0, 0, 5)]\<rparr>\<rparr>"

text \<open>\<open>mesh_B_swapped\<close>: \<open>mesh_B\<close> after the 3-2 swap of its interior edge (0, 1).\<close>

definition mesh_B_swapped :: "(vec3, unit) mesh" where
  "mesh_B_swapped =
     mesh_B
     \<lparr>tet_attrs := [\<lparr>prism_id = [3, 0, -1, -1], is_removed = True, conn = [0, 1, 3, 2]\<rparr>,
                    \<lparr>prism_id = [4, 1, -1, -1], is_removed = True, conn = [0, 1, 4, 3]\<rparr>,
                    \<lparr>prism_id = [5, 2, -1, -1], is_removed = True, conn = [0, 1, 2, 4]\<rparr>,
                    \<lparr>prism_id = [-1, 0, 2, 1], is_removed = False, conn = [0, 4, 3, 2]\<rparr>,
                    \<lparr>prism_id = [4, -1, 3, 5], is_removed = False, conn = [2, 1, 4, 3]\<rparr>],
      vert_conn := [[3], [4], [3, 4], [3, 4], [3, 4]]\<rparr>"

text \<open>
  \<open>mesh_A_split\<close>: \<open>mesh_A\<close> after the split of its interior edge (4, 0) at the new
  vertex 5.
\<close>

definition mesh_A_split :: "(vec3, unit) mesh" where
  "mesh_A_split =
     mesh_A
     \<lparr>vert_attrs := [\<lparr>pos = (4, 0, 0), mid_id = 0\<rparr>, \<lparr>pos = (0, 4, 0), mid_id = 1\<rparr>,
                     \<lparr>pos = (0, 0, 4), mid_id = 2\<rparr>, \<lparr>pos = (0, 0, 0), mid_id = 3\<rparr>,
                     \<lparr>pos = (1, 1, 1), mid_id = -1\<rparr>, \<lparr>pos = (5 / 2, 1 / 2, 1 / 2), mid_id = -1\<rparr>],
      tet_attrs := [\<lparr>prism_id = [0, -1, -1, -1], is_removed = True, conn = [4, 0, 1, 2]\<rparr>,
                    \<lparr>prism_id = [1, -1, -1, -1], is_removed = True, conn = [4, 1, 0, 3]\<rparr>,
                    \<lparr>prism_id = [2, -1, -1, -1], is_removed = True, conn = [4, 0, 2, 3]\<rparr>,
                    \<lparr>prism_id = [3, -1, -1, -1], is_removed = False, conn = [4, 2, 1, 3]\<rparr>,
                    \<lparr>prism_id = [0, -1, -1, -1], is_removed = False, conn = [5, 0, 1, 2]\<rparr>,
                    \<lparr>prism_id = [-1, -1, -1, -1], is_removed = False, conn = [4, 5, 1, 2]\<rparr>,
                    \<lparr>prism_id = [1, -1, -1, -1], is_removed = False, conn = [5, 1, 0, 3]\<rparr>,
                    \<lparr>prism_id = [-1, -1, -1, -1], is_removed = False, conn = [4, 1, 5, 3]\<rparr>,
                    \<lparr>prism_id = [2, -1, -1, -1], is_removed = False, conn = [5, 0, 2, 3]\<rparr>,
                    \<lparr>prism_id = [-1, -1, -1, -1], is_removed = False, conn = [4, 5, 2, 3]\<rparr>],
      vert_conn := [[4, 6, 8], [3, 4, 5, 6, 7], [3, 4, 5, 8, 9], [3, 6, 7, 8, 9],
                    [3, 5, 7, 9], [4, 5, 6, 7, 8, 9]]\<rparr>"

section \<open>Basic facts\<close>

lemma dless_irrefl: "\<not> dless a a"
  by (cases a) auto

lemma audited_Some: "audited K s = Some (b, s') \<Longrightarrow> b \<and> s' = s \<and> tetmesh_sanity K (tet_attrs s) (vert_attrs s) (vert_conn s) (pc s)"
  by (auto simp: audited_def split: if_splits)

lemma assert_that_Some [simp]: "(assert_that dbg c = Some u) = (dbg \<longrightarrow> c)"
  by (auto simp: assert_that_def)

lemma assert_that_None [simp]: "(assert_that dbg c = None) = (dbg \<and> \<not> c)"
  by (auto simp: assert_that_def)

lemma split_edge_True_sane:
  assumes "split_edge K dbg s v0 v1 = Some (True, s')"
  shows "tetmesh_sanity K (tet_attrs s') (vert_attrs s') (vert_conn s') (pc s')"
  using assms unfolding split_edge_def split_finish_def Let_def
  by (auto simp: bind_eq_Some_conv split: if_splits option.splits prod.splits dest!: audited_Some)

lemma collapse_edge_True_sane:
  assumes "collapse_edge K dbg s v1 v2 sc = Some (True, s')"
  shows "tetmesh_sanity K (tet_attrs s') (vert_attrs s') (vert_conn s') (pc s')"
  using assms unfolding collapse_edge_def Let_def
  by (auto simp: bind_eq_Some_conv split: if_splits option.splits prod.splits dest!: audited_Some)

lemma swap_edge_True_sane:
  assumes "swap_edge K dbg s v1 v2 sc = Some (True, s')"
  shows "tetmesh_sanity K (tet_attrs s') (vert_attrs s') (vert_conn s') (pc s')"
  using assms unfolding swap_edge_def Let_def
  by (auto simp: bind_eq_Some_conv split: if_splits option.splits prod.splits dest!: audited_Some)

lemma swap_face_True_sane:
  assumes "swap_face K dbg s v0 v1 v2 sc = Some (True, s')"
  shows "tetmesh_sanity K (tet_attrs s') (vert_attrs s') (vert_conn s') (pc s')"
  using assms unfolding swap_face_def Let_def
  by (auto simp: bind_eq_Some_conv split: if_splits option.splits prod.splits dest!: audited_Some)

lemma four_indices: "set [0, 1, 2, 3 :: nat] = {j. j < 4}"
  by auto

lemma tagged_indices: "set (filter P [0, 1, 2, 3 :: nat]) = {j. j < 4 \<and> P j}"
  unfolding set_filter four_indices by blast

lemma live_tagged_faces:
  "set (if is_removed t then []
        else map (sorted_face (conn t)) (filter (\<lambda>j. prism_id t ! j \<noteq> -1) [0, 1, 2, 3]))
   = {f. \<exists>j. f = sorted_face (conn t) j \<and> \<not> is_removed t \<and> j < 4 \<and> prism_id t ! j \<noteq> -1}"
proof (cases "is_removed t")
  case True
  then show ?thesis by simp
next
  case False
  have "set (map (sorted_face (conn t)) (filter (\<lambda>j. prism_id t ! j \<noteq> -1) [0, 1, 2, 3]))
        = sorted_face (conn t) ` {j. j < 4 \<and> prism_id t ! j \<noteq> -1}"
    by (simp only: set_map tagged_indices)
  with False show ?thesis
    by (simp only: if_False) blast
qed

lemma boundary_faces_set:
  "set (boundary_faces ta) =
   {sorted_face (conn t) j | t j. t \<in> set ta \<and> \<not> is_removed t \<and> j < 4 \<and> prism_id t ! j \<noteq> -1}"
  unfolding boundary_faces_def set_remdups set_concat set_map image_image live_tagged_faces
  by blast


lemma boundary_faces_card:
  "length (boundary_faces ta) =
   card {sorted_face (conn t) j | t j. t \<in> set ta \<and> \<not> is_removed t \<and> j < 4 \<and> prism_id t ! j \<noteq> -1}"
proof -
  have "length (boundary_faces ta) = card (set (boundary_faces ta))"
    unfolding boundary_faces_def by (simp only: length_remdups_card_conv set_remdups)
  then show ?thesis
    by (simp only: boundary_faces_set)
qed

lemma count_pc_faces_card:
  "count_pc_faces c = card {i. i < length (pc_F c) \<and> pc_F c ! i ! 0 \<noteq> -1}"
  by (simp add: count_pc_faces_def length_filter_conv_card)

lemma sane_counts:
  "tetmesh_sanity K ta va vc c \<Longrightarrow> length (boundary_faces ta) = count_pc_faces c"
  by (simp add: tetmesh_sanity_def)

text \<open>
  Claim C2. Whenever \<open>split_edge\<close>, \<open>collapse_edge\<close>, \<open>swap_edge\<close> or \<open>swap_face\<close> returns
  true, the number of distinct faces of non-removed tets that carry a tag other than
  \<open>-1\<close> equals the number of slots of \<open>pc.F\<close> whose first entry is not \<open>-1\<close>: an editor
  returns true only after \<open>tetmesh_sanity\<close> has passed, and that audit compares exactly
  these two counts.
\<close>

theorem accepted_edit_boundary_count:
  assumes "split_edge K dbg s a b = Some (True, s')
           \<or> collapse_edge K dbg s a b size_control = Some (True, s')
           \<or> swap_edge K dbg s a b size_control = Some (True, s')
           \<or> swap_face K dbg s a b c size_control = Some (True, s')"
  shows "card {sorted_face (conn t) j | t j.
                 t \<in> set (tet_attrs s') \<and> \<not> is_removed t \<and> j < 4 \<and> prism_id t ! j \<noteq> -1}
         = card {i. i < length (pc_F (pc s')) \<and> pc_F (pc s') ! i ! 0 \<noteq> -1}"
proof -
  from assms have "tetmesh_sanity K (tet_attrs s') (vert_attrs s') (vert_conn s') (pc s')"
    by (elim disjE)
       (erule split_edge_True_sane collapse_edge_True_sane swap_edge_True_sane swap_face_True_sane)+
  then have "length (boundary_faces (tet_attrs s')) = count_pc_faces (pc s')"
    by (rule sane_counts)
  then show ?thesis
    by (simp only: boundary_faces_card count_pc_faces_card)
qed

theorem accepted_edit_boundary_count_witness:
  "collapse_edge ex_kernel True mesh_A 4 0 (Fin 100) = Some (True, mesh_A_collapsed)
   \<and> in_bounds mesh_A
   \<and> card {sorted_face (conn t) j | t j.
              t \<in> set (tet_attrs mesh_A_collapsed) \<and> \<not> is_removed t \<and> j < 4 \<and> prism_id t ! j \<noteq> -1} = 4
   \<and> card {i. i < length (pc_F (pc mesh_A_collapsed)) \<and> pc_F (pc mesh_A_collapsed) ! i ! 0 \<noteq> -1} = 4"
proof -
  have run: "collapse_edge ex_kernel True mesh_A 4 0 (Fin 100) = Some (True, mesh_A_collapsed)"
    by code_simp
  have wf: "in_bounds mesh_A"
    by code_simp
  have slots: "count_pc_faces (pc mesh_A_collapsed) = 4"
    by code_simp
  from accepted_edit_boundary_count [where K = ex_kernel and dbg = True and s = mesh_A and a = 4
      and b = 0 and size_control = "Fin 100" and s' = mesh_A_collapsed, OF disjI2 [OF disjI1 [OF run]]]
  show ?thesis
    using run wf slots by (simp only: count_pc_faces_card [symmetric])
qed

section \<open>Rejected edits\<close>

text \<open>
  \<open>collapse_edge\<close>, \<open>swap_edge\<close> and \<open>swap_face\<close> return false only before their first
  write, so the state they hand back is the one they were given.
\<close>

lemma collapse_edge_False_unchanged:
  "collapse_edge K dbg s v1 v2 sc = Some (False, s') \<Longrightarrow> s' = s"
  unfolding collapse_edge_def Let_def
  by (auto simp: bind_eq_Some_conv split: if_splits option.splits prod.splits dest!: audited_Some)

lemma swap_edge_False_unchanged:
  "swap_edge K dbg s v1 v2 sc = Some (False, s') \<Longrightarrow> s' = s"
  unfolding swap_edge_def Let_def
  by (auto simp: bind_eq_Some_conv split: if_splits option.splits prod.splits dest!: audited_Some)

lemma swap_face_False_unchanged:
  "swap_face K dbg s v0 v1 v2 sc = Some (False, s') \<Longrightarrow> s' = s"
  unfolding swap_face_def Let_def
  by (auto simp: bind_eq_Some_conv split: if_splits option.splits prod.splits dest!: audited_Some)

text \<open>
  \<open>split_edge\<close> is different. Its \<open>rollback\<close> pops \<open>pc.top\<close>, \<open>pc.base\<close> and \<open>pc.mid\<close>
  whether or not the edge was a boundary edge, that is, whether or not anything was pushed.
  A rejected split of an interior edge therefore hands back the shell arrays without
  their last entry, for every kernel.
\<close>

lemma split_edge_interior_reject:
  assumes "split_edge K dbg s v0 v1 = Some (False, s')"
    and "edge_adjacent_boundary_face (tet_attrs s) (vert_conn s) v0 v1 = []"
  shows "s' = s\<lparr>pc := (pc s)\<lparr>pc_top := butlast (pc_top (pc s)),
                              pc_base := butlast (pc_base (pc s)),
                              pc_mid := butlast (pc_mid (pc s))\<rparr>\<rparr>"
  using assms unfolding split_edge_def split_finish_def split_add_vertex_def Let_def
  by (auto simp: bind_eq_Some_conv split_rollback_def pop_back_def
           split: if_splits option.splits prod.splits dest!: audited_Some)

text \<open>
  Claim C1 (every editor call that returns false leaves vertex attributes, tet
  attributes, adjacency and the shell arrays identical; in particular a rejected split
  of an interior edge leaves the shell arrays unchanged) fails for \<open>split_edge\<close>. In
  \<open>mesh_A\<close>, a well-formed state that passes the audit, the interior edge from vertex 4
  at (1, 1, 1) to vertex 3 at (0, 0, 0) has its rounded midpoint on vertex 3, so the
  children that keep vertex 3 are flat and the split is rejected: the call returns false
  and the shell arrays have lost the pillar of shell vertex 3, which vertex 3 and three
  shell triangles still refer to.
\<close>

theorem split_edge_rejected_interior_edge_pops_shell:
  "split_edge ex_kernel_grid True mesh_A 4 3 = Some (False, mesh_A_after_rejected_split)
   \<and> split_edge ex_kernel_grid False mesh_A 4 3 = Some (False, mesh_A_after_rejected_split)
   \<and> edge_adjacent_boundary_face (tet_attrs mesh_A) (vert_conn mesh_A) 4 3 = []
   \<and> in_bounds mesh_A
   \<and> tetmesh_sanity ex_kernel_grid (tet_attrs mesh_A) (vert_attrs mesh_A) (vert_conn mesh_A) (pc mesh_A)
   \<and> length (pc_mid (pc mesh_A)) = 4
   \<and> length (pc_mid (pc mesh_A_after_rejected_split)) = 3
   \<and> mesh_A_after_rejected_split \<noteq> mesh_A"
proof -
  have "split_edge ex_kernel_grid True mesh_A 4 3 = Some (False, mesh_A_after_rejected_split)"
    by code_simp
  moreover have "split_edge ex_kernel_grid False mesh_A 4 3 = Some (False, mesh_A_after_rejected_split)"
    by code_simp
  moreover have "edge_adjacent_boundary_face (tet_attrs mesh_A) (vert_conn mesh_A) 4 3 = []"
    by code_simp
  moreover have "in_bounds mesh_A"
    by code_simp
  moreover have "tetmesh_sanity ex_kernel_grid (tet_attrs mesh_A) (vert_attrs mesh_A) (vert_conn mesh_A) (pc mesh_A)"
    by code_simp
  moreover have "length (pc_mid (pc mesh_A)) = 4" "length (pc_mid (pc mesh_A_after_rejected_split)) = 3"
    by code_simp+
  moreover have "mesh_A_after_rejected_split \<noteq> mesh_A"
    by code_simp
  ultimately show ?thesis
    by simp
qed

section \<open>collapse\_edge: link condition, shell-id gate, quality gate\<close>

text \<open>
  The size comparison of the link test, read back as a statement about the two vertex
  sets. (With no vertex at all on the old side the unsigned subtraction wraps, and the
  replacement tets, being made from the old ones, span no vertex either.)
\<close>

lemma spanned_verts_card: "length (spanned_verts tets) = card (\<Union> (set ` set tets))"
  by (simp add: spanned_verts_def length_remdups_card_conv)

lemma spanned_verts_Nil: "(spanned_verts tets = []) = (\<forall>t \<in> set tets. t = [])"
  by (auto simp: spanned_verts_def)

lemma collapse_new_tets_empty:
  assumes "\<forall>t \<in> set nb1. conn (ta ! nat t) = []"
  shows "\<forall>t \<in> set (collapse_new_tets ta nb1 v1 v2). t = []"
  using assms by (auto simp: collapse_new_tets_def Let_def)

lemma link_violated_iff:
  "link_violated (map (\<lambda>t. conn (ta ! nat t)) nb1) (collapse_new_tets ta nb1 v1 v2)
   = (card (\<Union> (set ` set (collapse_new_tets ta nb1 v1 v2))) + 1
        \<noteq> card (\<Union> (set ` set (map (\<lambda>t. conn (ta ! nat t)) nb1))))"
proof (cases "spanned_verts (map (\<lambda>t. conn (ta ! nat t)) nb1) = []")
  case True
  have "\<forall>t \<in> set (map (\<lambda>t. conn (ta ! nat t)) nb1). t = []"
    using True by (rule spanned_verts_Nil [THEN iffD1])
  then have old: "\<forall>t \<in> set nb1. conn (ta ! nat t) = []"
    by simp
  then have "spanned_verts (collapse_new_tets ta nb1 v1 v2) = []"
    using collapse_new_tets_empty [OF old] by (simp add: spanned_verts_Nil)
  moreover have "card (\<Union> (set ` set (map (\<lambda>t. conn (ta ! nat t)) nb1))) = 0"
    using True unfolding spanned_verts_card [symmetric] by (simp only: list.size)
  ultimately show ?thesis
    using True by (simp add: link_violated_def)
next
  case False
  then have "0 < length (spanned_verts (map (\<lambda>t. conn (ta ! nat t)) nb1))"
    by simp
  then have "(int (length (spanned_verts (collapse_new_tets ta nb1 v1 v2)))
               \<noteq> int (length (spanned_verts (map (\<lambda>t. conn (ta ! nat t)) nb1))) - 1)
             = (length (spanned_verts (collapse_new_tets ta nb1 v1 v2)) + 1
                  \<noteq> length (spanned_verts (map (\<lambda>t. conn (ta ! nat t)) nb1)))"
    by linarith
  with False have "link_violated (map (\<lambda>t. conn (ta ! nat t)) nb1) (collapse_new_tets ta nb1 v1 v2)
                   = (length (spanned_verts (collapse_new_tets ta nb1 v1 v2)) + 1
                        \<noteq> length (spanned_verts (map (\<lambda>t. conn (ta ! nat t)) nb1)))"
    by (simp only: link_violated_def if_False)
  then show ?thesis
    by (simp only: spanned_verts_card)
qed

text \<open>
  Claim C3. \<open>collapse_edge(v1, v2)\<close> returns false and changes nothing whenever the set
  of vertices spanned by the replacement tets (the tets of \<open>v1\<close> that do not contain \<open>v2\<close>,
  with \<open>v1\<close> overwritten by \<open>v2\<close>) does not have exactly one element fewer than the set
  of vertices spanned by all tets of \<open>v1\<close>. In a release build the call always returns
  false with the state it was given; in a debug build the only other outcome is that one
  of the assertions before the test stops the process.
\<close>

theorem collapse_edge_link_condition:
  assumes "card (\<Union> (set ` set (collapse_new_tets (tet_attrs s) (vert_conn s ! nat v1) v1 v2))) + 1
           \<noteq> card (\<Union> (set ` set (map (\<lambda>t. conn (tet_attrs s ! nat t)) (vert_conn s ! nat v1))))"
  shows "collapse_edge K dbg s v1 v2 size_control = Some (False, s)
         \<or> (dbg \<and> collapse_edge K dbg s v1 v2 size_control = None)"
proof -
  from assms have "link_violated (map (\<lambda>t. conn (tet_attrs s ! nat t)) (vert_conn s ! nat v1))
                      (collapse_new_tets (tet_attrs s) (vert_conn s ! nat v1) v1 v2)"
    by (simp add: link_violated_iff)
  then show ?thesis
    unfolding collapse_edge_def Let_def assert_that_def
    by (auto split: if_splits)
qed

text \<open>
  In \<open>mesh_A_collapsed\<close> a single tet is left; collapsing its edge (0, 1) would leave no
  tet around vertex 0, and the link test rejects it.
\<close>

theorem collapse_edge_link_condition_witness:
  "card (\<Union> (set ` set (collapse_new_tets (tet_attrs mesh_A_collapsed)
                             (vert_conn mesh_A_collapsed ! nat 0) 0 1))) + 1
     \<noteq> card (\<Union> (set ` set (map (\<lambda>t. conn (tet_attrs mesh_A_collapsed ! nat t))
                                 (vert_conn mesh_A_collapsed ! nat 0))))
   \<and> in_bounds mesh_A_collapsed
   \<and> collapse_edge ex_kernel True mesh_A_collapsed 0 1 (Fin 100) = Some (False, mesh_A_collapsed)
   \<and> collapse_edge ex_kernel False mesh_A_collapsed 0 1 (Fin 100) = Some (False, mesh_A_collapsed)"
proof -
  have new: "collapse_new_tets (tet_attrs mesh_A_collapsed) (vert_conn mesh_A_collapsed ! nat 0) 0 1 = []"
    by code_simp
  have old: "map (\<lambda>t. conn (tet_attrs mesh_A_collapsed ! nat t)) (vert_conn mesh_A_collapsed ! nat 0)
             = [[0, 2, 1, 3]]"
    by code_simp
  have "card (\<Union> (set ` set [[0, 2, 1, 3 :: int]])) = 4"
    by simp
  then have hyp: "card (\<Union> (set ` set (collapse_new_tets (tet_attrs mesh_A_collapsed)
                             (vert_conn mesh_A_collapsed ! nat 0) 0 1))) + 1
     \<noteq> card (\<Union> (set ` set (map (\<lambda>t. conn (tet_attrs mesh_A_collapsed ! nat t))
                                 (vert_conn mesh_A_collapsed ! nat 0))))"
    unfolding new old by simp
  have returns: "collapse_edge ex_kernel True mesh_A_collapsed 0 1 (Fin 100) \<noteq> None"
    by code_simp
  have wf: "in_bounds mesh_A_collapsed"
    by code_simp
  from collapse_edge_link_condition [OF hyp, of ex_kernel True "Fin 100"]
       collapse_edge_link_condition [OF hyp, of ex_kernel False "Fin 100"]
  show ?thesis
    using hyp returns wf by simp
qed

text \<open>
  Claim C7, as far as the code goes: when \<open>v1\<close> has a shell-id and \<open>v2\<close> has none,
  \<open>collapse_edge(v1, v2)\<close> returns false and changes nothing (in a debug build the
  assertion on the shared tets may stop the process before).
\<close>

theorem collapse_edge_shell_vertex_into_interior:
  assumes "mid_id (vert_attrs s ! nat v1) \<noteq> -1" and "mid_id (vert_attrs s ! nat v2) = -1"
  shows "collapse_edge K dbg s v1 v2 size_control = Some (False, s)
         \<or> (dbg \<and> collapse_edge K dbg s v1 v2 size_control = None)"
  using assms unfolding collapse_edge_def Let_def assert_that_def
  by (auto split: if_splits)

theorem collapse_edge_shell_vertex_into_interior_witness:
  "mid_id (vert_attrs mesh_A ! nat 0) \<noteq> -1 \<and> mid_id (vert_attrs mesh_A ! nat 4) = -1
   \<and> collapse_edge ex_kernel True mesh_A 0 4 (Fin 100) = Some (False, mesh_A)
   \<and> collapse_edge ex_kernel False mesh_A 0 4 (Fin 100) = Some (False, mesh_A)"
proof -
  have a: "mid_id (vert_attrs mesh_A ! nat 0) \<noteq> -1"
    by code_simp
  have b: "mid_id (vert_attrs mesh_A ! nat 4) = -1"
    by code_simp
  have returns: "collapse_edge ex_kernel True mesh_A 0 4 (Fin 100) \<noteq> None"
    by code_simp
  from collapse_edge_shell_vertex_into_interior [OF a b, of ex_kernel True "Fin 100"]
       collapse_edge_shell_vertex_into_interior [OF a b, of ex_kernel False "Fin 100"]
  show ?thesis
    using a b returns by simp
qed

text \<open>
  The other direction of claim C7 is not rejected: with \<open>v1\<close> interior and \<open>v2\<close> on the
  shell the two shell-id tests of \<open>collapse_edge\<close> are passed, and the collapse is an
  ordinary one. In \<open>mesh_A\<close> the interior vertex 4 collapses into the shell vertex 0.
\<close>

theorem collapse_edge_interior_into_shell_vertex_accepted:
  "mid_id (vert_attrs mesh_A ! nat 4) = -1 \<and> mid_id (vert_attrs mesh_A ! nat 0) \<noteq> -1
   \<and> in_bounds mesh_A
   \<and> collapse_edge ex_kernel True mesh_A 4 0 (Fin 100) = Some (True, mesh_A_collapsed)
   \<and> collapse_edge ex_kernel False mesh_A 4 0 (Fin 100) = Some (True, mesh_A_collapsed)
   \<and> mesh_A_collapsed \<noteq> mesh_A"
proof -
  have "mid_id (vert_attrs mesh_A ! nat 4) = -1" "mid_id (vert_attrs mesh_A ! nat 0) \<noteq> -1"
    by code_simp+
  moreover have "in_bounds mesh_A"
    by code_simp
  moreover have "collapse_edge ex_kernel True mesh_A 4 0 (Fin 100) = Some (True, mesh_A_collapsed)"
    by code_simp
  moreover have "collapse_edge ex_kernel False mesh_A 4 0 (Fin 100) = Some (True, mesh_A_collapsed)"
    by code_simp
  moreover have "mesh_A_collapsed \<noteq> mesh_A"
    by code_simp
  ultimately show ?thesis
    by simp
qed

text \<open>
  \<open>compute_quality\<close> starts from \<open>0.\<close> and \<open>std::max(maxqual, q)\<close> keeps \<open>maxqual\<close> when \<open>q\<close> is
  NaN, so its result is never NaN and the comparisons of the gates are comparisons of
  numbers.
\<close>

lemma dless_NaN_right: "\<not> dless a NaN"
  by (cases a) auto

lemma dless_NaN_left: "\<not> dless NaN a"
  by simp

lemma fold_std_max_not_NaN:
  "acc \<noteq> NaN \<Longrightarrow> fold (\<lambda>t m. std_max m (f t)) tets acc \<noteq> NaN"
proof (induction tets arbitrary: acc)
  case Nil
  then show ?case by simp
next
  case (Cons t tets)
  have "std_max acc (f t) \<noteq> NaN"
    using Cons.prems dless_NaN_right [of acc] by (auto simp: std_max_def)
  then show ?case
    using Cons.IH by simp
qed

lemma compute_quality_not_NaN: "compute_quality K va tets \<noteq> NaN"
  unfolding compute_quality_def by (rule fold_std_max_not_NaN) simp

lemma dle_iff_not_dless: "a \<noteq> NaN \<Longrightarrow> b \<noteq> NaN \<Longrightarrow> dle a b = (\<not> dless b a)"
  by (simp add: dle_def)

lemma quality_gate_iff:
  assumes "threshold \<noteq> NaN" and "before_quality \<noteq> NaN" and "after_quality \<noteq> NaN"
  shows "(\<not> collapse_quality_reject threshold before_quality after_quality)
         = (dle after_quality threshold \<or> dle after_quality before_quality)"
  using assms by (auto simp: collapse_quality_reject_def dle_def)

lemma collapse_edge_True_gate:
  assumes "collapse_edge K dbg s v1 v2 sc = Some (True, s')"
  shows "\<not> collapse_quality_reject (collapse_quality_threshold (opts s))
            (compute_quality K (vert_attrs s) (map (\<lambda>t. conn (tet_attrs s ! nat t)) (vert_conn s ! nat v1)))
            (compute_quality K (vert_attrs s) (collapse_new_tets (tet_attrs s) (vert_conn s ! nat v1) v1 v2))"
  using assms unfolding collapse_edge_def Let_def
  by (auto simp: bind_eq_Some_conv split: if_splits)

lemma collapse_edge_gate_rejects:
  assumes "collapse_quality_reject (collapse_quality_threshold (opts s))
            (compute_quality K (vert_attrs s) (map (\<lambda>t. conn (tet_attrs s ! nat t)) (vert_conn s ! nat v1)))
            (compute_quality K (vert_attrs s) (collapse_new_tets (tet_attrs s) (vert_conn s ! nat v1) v1 v2))"
  shows "collapse_edge K dbg s v1 v2 sc = Some (False, s)
         \<or> (dbg \<and> collapse_edge K dbg s v1 v2 sc = None)"
  using assms unfolding collapse_edge_def Let_def assert_that_def
  by (auto split: if_splits)

text \<open>
  Claim C4. With \<open>before\<close> and \<open>after\<close> the maximum quality energy over the tets of \<open>v1\<close>
  and over the replacement tets, \<open>collapse_edge\<close> rejects at its quality gate exactly when
  \<open>after\<close> exceeds \<open>option.collapse_quality_threshold\<close> and is worse than \<open>before\<close>; that
  is, the gate is passed iff \<open>after <= threshold\<close> or \<open>after <= before\<close>. A call whose gate
  rejects returns false with the state unchanged (or is stopped by an earlier assertion
  in a debug build), and an accepted collapse has passed the gate. The threshold is
  assumed to be a number (not NaN).
\<close>

theorem collapse_edge_quality_gate:
  fixes K :: "('p, 'g) kernel" and s :: "('p, 'g) mesh" and v1 v2 :: int
  defines "before_quality \<equiv>
             compute_quality K (vert_attrs s) (map (\<lambda>t. conn (tet_attrs s ! nat t)) (vert_conn s ! nat v1))"
    and "after_quality \<equiv>
             compute_quality K (vert_attrs s) (collapse_new_tets (tet_attrs s) (vert_conn s ! nat v1) v1 v2)"
  assumes "collapse_quality_threshold (opts s) \<noteq> NaN"
  shows "((\<not> collapse_quality_reject (collapse_quality_threshold (opts s)) before_quality after_quality)
            = (dle after_quality (collapse_quality_threshold (opts s)) \<or> dle after_quality before_quality))
         \<and> (collapse_quality_reject (collapse_quality_threshold (opts s)) before_quality after_quality
              \<longrightarrow> collapse_edge K dbg s v1 v2 size_control = Some (False, s)
                  \<or> (dbg \<and> collapse_edge K dbg s v1 v2 size_control = None))
         \<and> (collapse_edge K dbg s v1 v2 size_control = Some (True, s')
              \<longrightarrow> dle after_quality (collapse_quality_threshold (opts s)) \<or> dle after_quality before_quality)"
proof (intro conjI impI)
  show gate: "(\<not> collapse_quality_reject (collapse_quality_threshold (opts s)) before_quality after_quality)
           = (dle after_quality (collapse_quality_threshold (opts s)) \<or> dle after_quality before_quality)"
    unfolding before_quality_def after_quality_def
    using assms(3) by (intro quality_gate_iff compute_quality_not_NaN)
  show "collapse_edge K dbg s v1 v2 size_control = Some (False, s)
             \<or> (dbg \<and> collapse_edge K dbg s v1 v2 size_control = None)"
    if "collapse_quality_reject (collapse_quality_threshold (opts s)) before_quality after_quality"
    using that unfolding before_quality_def after_quality_def by (rule collapse_edge_gate_rejects)
  show "dle after_quality (collapse_quality_threshold (opts s)) \<or> dle after_quality before_quality"
    if "collapse_edge K dbg s v1 v2 size_control = Some (True, s')"
    using collapse_edge_True_gate [OF that] gate unfolding before_quality_def after_quality_def by blast
qed

text \<open>
  In \<open>mesh_A\<close> (threshold 30): collapsing the corner 3 into 0 raises the energy from
  704969/256 to 2146689/256 and is rejected; collapsing the interior vertex 4 into 0
  lowers it from 2146689/256 to 729, above the threshold but not worse, and is accepted.
\<close>

theorem collapse_edge_quality_gate_witness:
  "collapse_quality_threshold (opts mesh_A) = Fin 30
   \<and> compute_quality ex_kernel (vert_attrs mesh_A) (map (\<lambda>t. conn (tet_attrs mesh_A ! nat t)) (vert_conn mesh_A ! nat 3))
       = Fin (704969 / 256)
   \<and> compute_quality ex_kernel (vert_attrs mesh_A) (collapse_new_tets (tet_attrs mesh_A) (vert_conn mesh_A ! nat 3) 3 0)
       = Fin (2146689 / 256)
   \<and> collapse_edge ex_kernel True mesh_A 3 0 (Fin 100) = Some (False, mesh_A)
   \<and> compute_quality ex_kernel (vert_attrs mesh_A) (map (\<lambda>t. conn (tet_attrs mesh_A ! nat t)) (vert_conn mesh_A ! nat 4))
       = Fin (2146689 / 256)
   \<and> compute_quality ex_kernel (vert_attrs mesh_A) (collapse_new_tets (tet_attrs mesh_A) (vert_conn mesh_A ! nat 4) 4 0)
       = Fin 729
   \<and> collapse_edge ex_kernel True mesh_A 4 0 (Fin 100) = Some (True, mesh_A_collapsed)
   \<and> dle (Fin 729) (Fin (2146689 / 256)) \<and> \<not> dle (Fin 729) (Fin 30)"
proof -
  have thr: "collapse_quality_threshold (opts mesh_A) = Fin 30"
    by code_simp
  then have num: "collapse_quality_threshold (opts mesh_A) \<noteq> NaN"
    by simp
  have b3: "compute_quality ex_kernel (vert_attrs mesh_A) (map (\<lambda>t. conn (tet_attrs mesh_A ! nat t)) (vert_conn mesh_A ! nat 3))
       = Fin (704969 / 256)"
    by code_simp
  have a3: "compute_quality ex_kernel (vert_attrs mesh_A) (collapse_new_tets (tet_attrs mesh_A) (vert_conn mesh_A ! nat 3) 3 0)
       = Fin (2146689 / 256)"
    by code_simp
  have b4: "compute_quality ex_kernel (vert_attrs mesh_A) (map (\<lambda>t. conn (tet_attrs mesh_A ! nat t)) (vert_conn mesh_A ! nat 4))
       = Fin (2146689 / 256)"
    by code_simp
  have a4: "compute_quality ex_kernel (vert_attrs mesh_A) (collapse_new_tets (tet_attrs mesh_A) (vert_conn mesh_A ! nat 4) 4 0)
       = Fin 729"
    by code_simp
  have rej: "collapse_quality_reject (Fin 30) (Fin (704969 / 256)) (Fin (2146689 / 256))"
    by (simp add: collapse_quality_reject_def)
  have returns: "collapse_edge ex_kernel True mesh_A 3 0 (Fin 100) \<noteq> None"
    by code_simp
  have acc: "collapse_edge ex_kernel True mesh_A 4 0 (Fin 100) = Some (True, mesh_A_collapsed)"
    by code_simp
  have cmp: "\<not> dle (Fin 729) (Fin 30)"
    by (simp add: dle_def)
  from collapse_edge_quality_gate [OF num, of ex_kernel 3 0 True "Fin 100"]
  have "collapse_edge ex_kernel True mesh_A 3 0 (Fin 100) = Some (False, mesh_A)"
    using rej returns unfolding thr b3 a3 by simp
  moreover
  from collapse_edge_quality_gate [OF num, of ex_kernel 4 0 True "Fin 100" mesh_A_collapsed]
  have "dle (Fin 729) (Fin (2146689 / 256))"
    using acc cmp unfolding thr b4 a4 by simp
  ultimately show ?thesis
    using thr b3 a3 b4 a4 acc cmp by simp
qed

section \<open>Order facts on doubles, and the affected set\<close>

lemma dle_refl: "a \<noteq> NaN \<Longrightarrow> dle a a"
  by (simp add: dle_def dless_irrefl)

lemma dless_trans: "dless a b \<Longrightarrow> dless b c \<Longrightarrow> dless a c"
  by (cases a; cases b; cases c) auto

lemma dless_total: "a \<noteq> NaN \<Longrightarrow> b \<noteq> NaN \<Longrightarrow> dless a b \<or> a = b \<or> dless b a"
  by (cases a; cases b) auto

lemma dle_trans: "dle a b \<Longrightarrow> dle b c \<Longrightarrow> dle a c"
  by (cases a; cases b; cases c) (auto simp: dle_def)

lemma std_max_upper_left: "acc \<noteq> NaN \<Longrightarrow> dle acc (std_max acc q)"
  using dless_NaN_right [of acc] by (auto simp: std_max_def dle_def dless_irrefl dest: dless_trans)

lemma std_max_upper_right: "acc \<noteq> NaN \<Longrightarrow> q \<noteq> NaN \<Longrightarrow> dle q (std_max acc q)"
  by (auto simp: std_max_def dle_def dless_irrefl)

lemma std_max_not_NaN: "acc \<noteq> NaN \<Longrightarrow> std_max acc q \<noteq> NaN"
  using dless_NaN_right [of acc] by (auto simp: std_max_def)

lemma fold_std_max_upper:
  assumes "acc \<noteq> NaN"
  shows "dle acc (fold (\<lambda>t m. std_max m (f t)) tets acc)
         \<and> (\<forall>t \<in> set tets. f t \<noteq> NaN \<longrightarrow> dle (f t) (fold (\<lambda>t m. std_max m (f t)) tets acc))"
  using assms
proof (induction tets arbitrary: acc)
  case Nil
  then show ?case by (simp add: dle_refl)
next
  case (Cons t tets)
  let ?acc = "std_max acc (f t)"
  have n: "?acc \<noteq> NaN"
    using Cons.prems by (rule std_max_not_NaN)
  from Cons.IH [OF n] have ih: "dle ?acc (fold (\<lambda>t m. std_max m (f t)) tets ?acc)"
    and rest: "\<forall>u \<in> set tets. f u \<noteq> NaN \<longrightarrow> dle (f u) (fold (\<lambda>t m. std_max m (f t)) tets ?acc)"
    by blast+
  have "dle acc (fold (\<lambda>t m. std_max m (f t)) tets ?acc)"
    using std_max_upper_left [OF Cons.prems] ih by (rule dle_trans)
  moreover have "f t \<noteq> NaN \<longrightarrow> dle (f t) (fold (\<lambda>t m. std_max m (f t)) tets ?acc)"
    using std_max_upper_right [OF Cons.prems] ih by (blast intro: dle_trans)
  ultimately show ?case
    using rest by simp
qed

lemma compute_quality_upper:
  assumes "t \<in> set tets"
    and "tetra_quality K (tet_pos va t 0) (tet_pos va t 1) (tet_pos va t 2) (tet_pos va t 3) \<noteq> NaN"
  shows "dle (tetra_quality K (tet_pos va t 0) (tet_pos va t 1) (tet_pos va t 2) (tet_pos va t 3))
             (compute_quality K va tets)"
proof -
  have "Fin 0 \<noteq> NaN" by simp
  from fold_std_max_upper [OF this, of "\<lambda>t. tetra_quality K (tet_pos va t 0) (tet_pos va t 1) (tet_pos va t 2) (tet_pos va t 3)" tets]
  show ?thesis
    using assms unfolding compute_quality_def by blast
qed

text \<open>
  \<open>max_tetra_sizes\<close> calls \<open>std::max(s, max_size)\<close>, the arguments the other way round: a
  NaN size would replace the running maximum. Without NaN among the sizes the result
  bounds every size.
\<close>

lemma fold_std_max_sizes:
  assumes "acc \<noteq> NaN" and "\<forall>t \<in> set tets. f t \<noteq> NaN"
  shows "fold (\<lambda>t m. std_max (f t) m) tets acc \<noteq> NaN
         \<and> dle acc (fold (\<lambda>t m. std_max (f t) m) tets acc)
         \<and> (\<forall>t \<in> set tets. dle (f t) (fold (\<lambda>t m. std_max (f t) m) tets acc))"
  using assms
proof (induction tets arbitrary: acc)
  case Nil
  then show ?case by (simp add: dle_refl)
next
  case (Cons t tets)
  let ?acc = "std_max (f t) acc"
  have ft: "f t \<noteq> NaN" and others: "\<forall>u \<in> set tets. f u \<noteq> NaN"
    using Cons.prems(2) by simp_all
  have n: "?acc \<noteq> NaN"
    using ft Cons.prems(1) by (simp add: std_max_def)
  from Cons.IH [OF n others]
  have r: "fold (\<lambda>t m. std_max (f t) m) tets ?acc \<noteq> NaN"
    and ih: "dle ?acc (fold (\<lambda>t m. std_max (f t) m) tets ?acc)"
    and rest: "\<forall>u \<in> set tets. dle (f u) (fold (\<lambda>t m. std_max (f t) m) tets ?acc)"
    by blast+
  have "dle acc ?acc"
    using std_max_upper_right [OF ft Cons.prems(1)] .
  then have a: "dle acc (fold (\<lambda>t m. std_max (f t) m) tets ?acc)"
    using ih by (rule dle_trans)
  have "dle (f t) ?acc"
    using std_max_upper_left [OF ft] .
  then have b: "dle (f t) (fold (\<lambda>t m. std_max (f t) m) tets ?acc)"
    using ih by (rule dle_trans)
  show ?case
    using r a b rest by simp
qed

lemma max_tetra_sizes_upper:
  assumes "\<forall>t \<in> set tets. circumradi2 K (tet_pos va t 0) (tet_pos va t 1) (tet_pos va t 2) (tet_pos va t 3) \<noteq> NaN"
  shows "max_tetra_sizes K va tets \<noteq> NaN
         \<and> (\<forall>t \<in> set tets. dle (circumradi2 K (tet_pos va t 0) (tet_pos va t 1) (tet_pos va t 2) (tet_pos va t 3))
                               (max_tetra_sizes K va tets))"
proof -
  have "Fin 0 \<noteq> NaN" by simp
  from fold_std_max_sizes [OF this, of tets "\<lambda>t. circumradi2 K (tet_pos va t 0) (tet_pos va t 1) (tet_pos va t 2) (tet_pos va t 3)"]
  show ?thesis
    using assms unfolding max_tetra_sizes_def by blast
qed

text \<open>
  On strictly increasing lists the merge walk of \<open>set_inter\<close> keeps exactly the common
  elements, so under the adjacency invariant the affected set of an edge is the list of
  the non-removed tets that contain both ends.
\<close>

lemma set_inter_filter:
  "sorted_wrt (<) as \<Longrightarrow> sorted_wrt (<) bs \<Longrightarrow> set_inter as bs = filter (\<lambda>x. x \<in> set bs) as"
proof (induction as bs rule: set_inter.induct)
  case (1 bs)
  then show ?case by simp
next
  case (2 a as)
  then show ?case by simp
next
  case (3 a as b bs)
  show ?case
  proof (cases "a < b")
    case True
    then have "a \<notin> set (b # bs)"
      using "3.prems"(2) by auto
    with True 3 show ?thesis by simp
  next
    case False
    show ?thesis
    proof (cases "b < a")
      case True
      have "filter (\<lambda>x. x \<in> set (b # bs)) (a # as) = filter (\<lambda>x. x \<in> set bs) (a # as)"
        using True "3.prems"(1) by (intro filter_cong) auto
      with True False 3 show ?thesis by simp
    next
      case eq: False
      with False have ab: "a = b" by simp
      have "filter (\<lambda>x. x \<in> set (b # bs)) as = filter (\<lambda>x. x \<in> set bs) as"
        using ab "3.prems"(1) by (intro filter_cong) auto
      with ab 3 show ?thesis by simp
    qed
  qed
qed

lemma tets_of_sorted: "sorted_wrt (<) (tets_of ta v)"
proof -
  have "sorted_wrt (<) (filter P [0..<n])" for P and n :: nat
    by (simp add: sorted_wrt_filter)
  then show ?thesis
    unfolding tets_of_def by (simp add: sorted_wrt_map)
qed

lemma set_tets_of:
  "set (tets_of ta v) = {int t | t. t < length ta \<and> \<not> is_removed (ta ! t) \<and> v \<in> set (conn (ta ! t))}"
  by (auto simp: tets_of_def)

lemma set_inter_tets_of:
  "set_inter (tets_of ta v) (tets_of ta w)
   = map int (filter (\<lambda>t. \<not> is_removed (ta ! t) \<and> v \<in> set (conn (ta ! t)) \<and> w \<in> set (conn (ta ! t)))
                     [0..<length ta])"
proof -
  have "set_inter (tets_of ta v) (tets_of ta w) = filter (\<lambda>x. x \<in> set (tets_of ta w)) (tets_of ta v)"
    by (intro set_inter_filter tets_of_sorted)
  also have "\<dots> = map int (filter (\<lambda>t. \<not> is_removed (ta ! t) \<and> v \<in> set (conn (ta ! t)) \<and> w \<in> set (conn (ta ! t)))
                     [0..<length ta])"
    unfolding tets_of_def filter_map filter_filter
    by (intro arg_cong [where f = "map int"] filter_cong) (auto simp: o_def)
  finally show ?thesis .
qed

lemma length_shared_tets:
  "length (set_inter (tets_of ta v) (tets_of ta w))
   = card {t. t < length ta \<and> \<not> is_removed (ta ! t) \<and> v \<in> set (conn (ta ! t)) \<and> w \<in> set (conn (ta ! t))}"
proof -
  have "length (filter P [0..<n]) = card {t. t < n \<and> P t}" for P and n :: nat
  proof -
    have "{i. i < n \<and> P ([0..<n] ! i)} = {t. t < n \<and> P t}"
      by auto
    then show ?thesis
      by (simp add: length_filter_conv_card)
  qed
  then show ?thesis
    unfolding set_inter_tets_of by simp
qed

lemma adjacency_consistentD:
  "adjacency_consistent s \<Longrightarrow> 0 \<le> v \<Longrightarrow> nat v < length (vert_conn s)
   \<Longrightarrow> vert_conn s ! nat v = tets_of (tet_attrs s) v"
  by (auto simp: adjacency_consistent_def list_all_iff)

section \<open>swap\_edge\<close>

lemma dle_not_dless: "a \<noteq> NaN \<Longrightarrow> b \<noteq> NaN \<Longrightarrow> \<not> dless b a \<Longrightarrow> dle a b"
  by (simp add: dle_def)

lemma swap_edge_rejects:
  assumes "length (set_inter (vert_conn s ! nat v1) (vert_conn s ! nat v2)) \<noteq> 3
           \<or> edge_adjacent_boundary_face (tet_attrs s) (vert_conn s) v1 v2 \<noteq> []"
  shows "swap_edge K dbg s v1 v2 sc = Some (False, s) \<or> (dbg \<and> swap_edge K dbg s v1 v2 sc = None)"
  using assms unfolding swap_edge_def Let_def assert_that_def
  by (auto split: if_splits)

lemma swap_edge_new_tets_length:
  "swap_edge_new_tets dbg ta v1 v2 affected = Some new_tets \<Longrightarrow> length new_tets = 2"
  unfolding swap_edge_new_tets_def Let_def
  by (auto simp: bind_eq_Some_conv split: prod.splits)

lemma swap_edge_accepted:
  assumes "swap_edge K dbg s v1 v2 sc = Some (True, s')"
  shows "length (set_inter (vert_conn s ! nat v1) (vert_conn s ! nat v2)) = 3
         \<and> edge_adjacent_boundary_face (tet_attrs s) (vert_conn s) v1 v2 = []
         \<and> (\<exists>new_tets.
               swap_edge_new_tets dbg (tet_attrs s) v1 v2
                 (set_inter (vert_conn s ! nat v1) (vert_conn s ! nat v2)) = Some new_tets
               \<and> \<not> dless sc (max_tetra_sizes K (vert_attrs s) new_tets)
               \<and> \<not> dless (compute_quality K (vert_attrs s)
                              (map (\<lambda>t. conn (tet_attrs s ! nat t))
                                   (set_inter (vert_conn s ! nat v1) (vert_conn s ! nat v2))))
                            (compute_quality K (vert_attrs s) new_tets)
               \<and> list_all (tetra_validity K (vert_attrs s)) new_tets)"
  using assms unfolding swap_edge_def Let_def
  by (auto simp: bind_eq_Some_conv split: if_splits)

lemma edge_adjacent_boundary_face_Nil:
  "(edge_adjacent_boundary_face ta vc v0 v1 = [])
   = (\<forall>t \<in> set (set_inter (vc ! nat v0) (vc ! nat v1)). \<forall>j < 4.
        prism_id (ta ! nat t) ! j \<noteq> -1 \<longrightarrow> conn (ta ! nat t) ! j = v0 \<or> conn (ta ! nat t) ! j = v1)"
proof -
  have "(filter P [0, 1, 2, 3 :: nat] = []) = (\<forall>j < 4. \<not> P j)" for P
    unfolding filter_empty_conv four_indices by blast
  then show ?thesis
    unfolding edge_adjacent_boundary_face_def Let_def concat_eq_Nil_conv set_map
    by (simp only: ball_simps map_is_Nil_conv) blast
qed

text \<open>
  Claim C5. \<open>swap_edge(v1, v2)\<close> returns false without any change when the affected set
  does not have exactly three tets or a tagged face contains the edge (in a debug build
  the assertion on an empty affected set stops the process instead). When it returns
  true, exactly three tets share the edge, no tagged face of them contains it, two
  replacement tets were proposed, their maximum quality energy is at most that of the
  three replaced tets (which also bounds the energy of each replacement tet), and their
  maximum size does not exceed \<open>size_control\<close>: where \<open>size_control\<close> and the sizes are
  numbers, the maximum and every squared circumradius are \<open><= size_control\<close>. Under the
  adjacency invariant the length of the affected set is the number of non-removed tets
  that contain both vertices.
\<close>

theorem swap_edge_contract:
  fixes K :: "('p, 'g) kernel" and s :: "('p, 'g) mesh" and v1 v2 :: int
  defines "affected \<equiv> set_inter (vert_conn s ! nat v1) (vert_conn s ! nat v2)"
    and "bnd_faces \<equiv> edge_adjacent_boundary_face (tet_attrs s) (vert_conn s) v1 v2"
  defines "old_tets \<equiv> map (\<lambda>t. conn (tet_attrs s ! nat t)) affected"
  shows
    "(length affected \<noteq> 3 \<or> bnd_faces \<noteq> []
        \<longrightarrow> swap_edge K dbg s v1 v2 size_control = Some (False, s)
            \<or> (dbg \<and> swap_edge K dbg s v1 v2 size_control = None))
     \<and> (swap_edge K dbg s v1 v2 size_control = Some (True, s')
        \<longrightarrow> length affected = 3 \<and> bnd_faces = [] \<and> length old_tets = 3
            \<and> (\<exists>new_tets.
                  swap_edge_new_tets dbg (tet_attrs s) v1 v2 affected = Some new_tets
                  \<and> length new_tets = 2
                  \<and> dle (compute_quality K (vert_attrs s) new_tets) (compute_quality K (vert_attrs s) old_tets)
                  \<and> (\<forall>t \<in> set new_tets.
                        tetra_quality K (tet_pos (vert_attrs s) t 0) (tet_pos (vert_attrs s) t 1)
                          (tet_pos (vert_attrs s) t 2) (tet_pos (vert_attrs s) t 3) \<noteq> NaN
                        \<longrightarrow> dle (tetra_quality K (tet_pos (vert_attrs s) t 0) (tet_pos (vert_attrs s) t 1)
                                   (tet_pos (vert_attrs s) t 2) (tet_pos (vert_attrs s) t 3))
                                (compute_quality K (vert_attrs s) old_tets))
                  \<and> \<not> dless size_control (max_tetra_sizes K (vert_attrs s) new_tets)
                  \<and> (size_control \<noteq> NaN
                      \<and> (\<forall>t \<in> set new_tets.
                            circumradi2 K (tet_pos (vert_attrs s) t 0) (tet_pos (vert_attrs s) t 1)
                              (tet_pos (vert_attrs s) t 2) (tet_pos (vert_attrs s) t 3) \<noteq> NaN)
                      \<longrightarrow> dle (max_tetra_sizes K (vert_attrs s) new_tets) size_control
                          \<and> (\<forall>t \<in> set new_tets.
                                dle (circumradi2 K (tet_pos (vert_attrs s) t 0) (tet_pos (vert_attrs s) t 1)
                                       (tet_pos (vert_attrs s) t 2) (tet_pos (vert_attrs s) t 3))
                                    size_control))))
     \<and> (bnd_faces = []
          = (\<forall>t \<in> set affected. \<forall>j < 4.
               prism_id (tet_attrs s ! nat t) ! j \<noteq> -1
               \<longrightarrow> conn (tet_attrs s ! nat t) ! j = v1 \<or> conn (tet_attrs s ! nat t) ! j = v2))
     \<and> (adjacency_consistent s \<and> 0 \<le> v1 \<and> nat v1 < length (vert_conn s)
          \<and> 0 \<le> v2 \<and> nat v2 < length (vert_conn s)
        \<longrightarrow> length affected
            = card {t. t < length (tet_attrs s) \<and> \<not> is_removed (tet_attrs s ! t)
                       \<and> v1 \<in> set (conn (tet_attrs s ! t)) \<and> v2 \<in> set (conn (tet_attrs s ! t))})"
proof (intro conjI impI)
  assume "length affected \<noteq> 3 \<or> bnd_faces \<noteq> []"
  then show "swap_edge K dbg s v1 v2 size_control = Some (False, s)
            \<or> (dbg \<and> swap_edge K dbg s v1 v2 size_control = None)"
    unfolding affected_def bnd_faces_def by (rule swap_edge_rejects)
next
  assume acc: "swap_edge K dbg s v1 v2 size_control = Some (True, s')"
  from swap_edge_accepted [OF acc] obtain new_tets where
    three: "length affected = 3" and nob: "bnd_faces = []"
    and new: "swap_edge_new_tets dbg (tet_attrs s) v1 v2 affected = Some new_tets"
    and size: "\<not> dless size_control (max_tetra_sizes K (vert_attrs s) new_tets)"
    and qual: "\<not> dless (compute_quality K (vert_attrs s) old_tets) (compute_quality K (vert_attrs s) new_tets)"
    unfolding affected_def bnd_faces_def old_tets_def by blast
  show "length affected = 3" by (rule three)
  show "bnd_faces = []" by (rule nob)
  show "length old_tets = 3" using three by (simp add: old_tets_def)
  have q: "dle (compute_quality K (vert_attrs s) new_tets) (compute_quality K (vert_attrs s) old_tets)"
    using qual by (intro dle_not_dless compute_quality_not_NaN)
  have each_q: "\<forall>t \<in> set new_tets.
                  tetra_quality K (tet_pos (vert_attrs s) t 0) (tet_pos (vert_attrs s) t 1)
                    (tet_pos (vert_attrs s) t 2) (tet_pos (vert_attrs s) t 3) \<noteq> NaN
                  \<longrightarrow> dle (tetra_quality K (tet_pos (vert_attrs s) t 0) (tet_pos (vert_attrs s) t 1)
                             (tet_pos (vert_attrs s) t 2) (tet_pos (vert_attrs s) t 3))
                          (compute_quality K (vert_attrs s) old_tets)"
    using compute_quality_upper [of _ new_tets K "vert_attrs s"] q by (blast intro: dle_trans)
  have each_s: "dle (max_tetra_sizes K (vert_attrs s) new_tets) size_control
                \<and> (\<forall>t \<in> set new_tets.
                      dle (circumradi2 K (tet_pos (vert_attrs s) t 0) (tet_pos (vert_attrs s) t 1)
                             (tet_pos (vert_attrs s) t 2) (tet_pos (vert_attrs s) t 3))
                          size_control)"
    if num: "size_control \<noteq> NaN
             \<and> (\<forall>t \<in> set new_tets.
                   circumradi2 K (tet_pos (vert_attrs s) t 0) (tet_pos (vert_attrs s) t 1)
                     (tet_pos (vert_attrs s) t 2) (tet_pos (vert_attrs s) t 3) \<noteq> NaN)"
  proof -
    from num max_tetra_sizes_upper [of new_tets K "vert_attrs s"]
    have n: "max_tetra_sizes K (vert_attrs s) new_tets \<noteq> NaN"
      and u: "\<forall>t \<in> set new_tets.
                dle (circumradi2 K (tet_pos (vert_attrs s) t 0) (tet_pos (vert_attrs s) t 1)
                       (tet_pos (vert_attrs s) t 2) (tet_pos (vert_attrs s) t 3))
                    (max_tetra_sizes K (vert_attrs s) new_tets)"
      by blast+
    have "dle (max_tetra_sizes K (vert_attrs s) new_tets) size_control"
      using n num size by (intro dle_not_dless) simp_all
    then show ?thesis
      using u by (blast intro: dle_trans)
  qed
  show "\<exists>new_tets.
          swap_edge_new_tets dbg (tet_attrs s) v1 v2 affected = Some new_tets
          \<and> length new_tets = 2
          \<and> dle (compute_quality K (vert_attrs s) new_tets) (compute_quality K (vert_attrs s) old_tets)
          \<and> (\<forall>t \<in> set new_tets.
                tetra_quality K (tet_pos (vert_attrs s) t 0) (tet_pos (vert_attrs s) t 1)
                  (tet_pos (vert_attrs s) t 2) (tet_pos (vert_attrs s) t 3) \<noteq> NaN
                \<longrightarrow> dle (tetra_quality K (tet_pos (vert_attrs s) t 0) (tet_pos (vert_attrs s) t 1)
                           (tet_pos (vert_attrs s) t 2) (tet_pos (vert_attrs s) t 3))
                        (compute_quality K (vert_attrs s) old_tets))
          \<and> \<not> dless size_control (max_tetra_sizes K (vert_attrs s) new_tets)
          \<and> (size_control \<noteq> NaN
              \<and> (\<forall>t \<in> set new_tets.
                    circumradi2 K (tet_pos (vert_attrs s) t 0) (tet_pos (vert_attrs s) t 1)
                      (tet_pos (vert_attrs s) t 2) (tet_pos (vert_attrs s) t 3) \<noteq> NaN)
              \<longrightarrow> dle (max_tetra_sizes K (vert_attrs s) new_tets) size_control
                  \<and> (\<forall>t \<in> set new_tets.
                        dle (circumradi2 K (tet_pos (vert_attrs s) t 0) (tet_pos (vert_attrs s) t 1)
                               (tet_pos (vert_attrs s) t 2) (tet_pos (vert_attrs s) t 3))
                            size_control))"
    using new swap_edge_new_tets_length [OF new] q each_q size each_s by blast
next
  show "(bnd_faces = [])
          = (\<forall>t \<in> set affected. \<forall>j < 4.
               prism_id (tet_attrs s ! nat t) ! j \<noteq> -1
               \<longrightarrow> conn (tet_attrs s ! nat t) ! j = v1 \<or> conn (tet_attrs s ! nat t) ! j = v2)"
    unfolding bnd_faces_def affected_def by (rule edge_adjacent_boundary_face_Nil)
next
  assume "adjacency_consistent s \<and> 0 \<le> v1 \<and> nat v1 < length (vert_conn s)
          \<and> 0 \<le> v2 \<and> nat v2 < length (vert_conn s)"
  then have "vert_conn s ! nat v1 = tets_of (tet_attrs s) v1" "vert_conn s ! nat v2 = tets_of (tet_attrs s) v2"
    by (simp_all add: adjacency_consistentD)
  then show "length affected
            = card {t. t < length (tet_attrs s) \<and> \<not> is_removed (tet_attrs s ! t)
                       \<and> v1 \<in> set (conn (tet_attrs s ! t)) \<and> v2 \<in> set (conn (tet_attrs s ! t))}"
    unfolding affected_def by (simp only: length_shared_tets)
qed

text \<open>
  In \<open>mesh_B\<close> the three tets around the edge (0, 1) are replaced by the two tets on
  either side of the triangle (2, 3, 4); the energy falls from 6859/4 to 1331/2 and the
  size is 5. The edge (0, 2) has two tets and is rejected, and so is the edge (0, 1)
  under the size bound 4.
\<close>

theorem swap_edge_contract_witness:
  "adjacency_consistent mesh_B \<and> in_bounds mesh_B
   \<and> set_inter (vert_conn mesh_B ! nat 0) (vert_conn mesh_B ! nat 1) = [0, 1, 2]
   \<and> card {t. t < length (tet_attrs mesh_B) \<and> \<not> is_removed (tet_attrs mesh_B ! t)
               \<and> 0 \<in> set (conn (tet_attrs mesh_B ! t)) \<and> 1 \<in> set (conn (tet_attrs mesh_B ! t))} = 3
   \<and> edge_adjacent_boundary_face (tet_attrs mesh_B) (vert_conn mesh_B) 0 1 = []
   \<and> swap_edge ex_kernel True mesh_B 0 1 (Fin 100) = Some (True, mesh_B_swapped)
   \<and> swap_edge_new_tets True (tet_attrs mesh_B) 0 1 [0, 1, 2] = Some [[0, 4, 3, 2], [2, 1, 4, 3]]
   \<and> compute_quality ex_kernel (vert_attrs mesh_B) [[0, 1, 3, 2], [0, 1, 4, 3], [0, 1, 2, 4]] = Fin (6859 / 4)
   \<and> compute_quality ex_kernel (vert_attrs mesh_B) [[0, 4, 3, 2], [2, 1, 4, 3]] = Fin (1331 / 2)
   \<and> max_tetra_sizes ex_kernel (vert_attrs mesh_B) [[0, 4, 3, 2], [2, 1, 4, 3]] = Fin 5
   \<and> set_inter (vert_conn mesh_B ! nat 0) (vert_conn mesh_B ! nat 2) = [0, 2]
   \<and> swap_edge ex_kernel True mesh_B 0 2 (Fin 100) = Some (False, mesh_B)
   \<and> swap_edge ex_kernel True mesh_B 0 1 (Fin 4) = Some (False, mesh_B)"
proof -
  have adj: "adjacency_consistent mesh_B" by code_simp
  have wf: "in_bounds mesh_B" by code_simp
  have aff: "set_inter (vert_conn mesh_B ! nat 0) (vert_conn mesh_B ! nat 1) = [0, 1, 2]" by code_simp
  have aff2: "set_inter (vert_conn mesh_B ! nat 0) (vert_conn mesh_B ! nat 2) = [0, 2]" by code_simp
  have bnd: "edge_adjacent_boundary_face (tet_attrs mesh_B) (vert_conn mesh_B) 0 1 = []" by code_simp
  have run: "swap_edge ex_kernel True mesh_B 0 1 (Fin 100) = Some (True, mesh_B_swapped)" by code_simp
  have new: "swap_edge_new_tets True (tet_attrs mesh_B) 0 1 [0, 1, 2] = Some [[0, 4, 3, 2], [2, 1, 4, 3]]"
    by code_simp
  have qo: "compute_quality ex_kernel (vert_attrs mesh_B) [[0, 1, 3, 2], [0, 1, 4, 3], [0, 1, 2, 4]] = Fin (6859 / 4)"
    by code_simp
  have qn: "compute_quality ex_kernel (vert_attrs mesh_B) [[0, 4, 3, 2], [2, 1, 4, 3]] = Fin (1331 / 2)"
    by code_simp
  have sz: "max_tetra_sizes ex_kernel (vert_attrs mesh_B) [[0, 4, 3, 2], [2, 1, 4, 3]] = Fin 5"
    by code_simp
  have ret2: "swap_edge ex_kernel True mesh_B 0 2 (Fin 100) \<noteq> None" by code_simp
  have small: "swap_edge ex_kernel True mesh_B 0 1 (Fin 4) = Some (False, mesh_B)" by code_simp
  have idx: "(0::int) \<le> 0 \<and> nat 0 < length (vert_conn mesh_B) \<and> (0::int) \<le> 1 \<and> nat 1 < length (vert_conn mesh_B)"
    by code_simp
  note thm01 = swap_edge_contract [of mesh_B 0 1 ex_kernel True "Fin 100" mesh_B_swapped]
  note thm02 = swap_edge_contract [of mesh_B 0 2 ex_kernel True "Fin 100" mesh_B]
  have card3: "card {t. t < length (tet_attrs mesh_B) \<and> \<not> is_removed (tet_attrs mesh_B ! t)
               \<and> 0 \<in> set (conn (tet_attrs mesh_B ! t)) \<and> 1 \<in> set (conn (tet_attrs mesh_B ! t))} = 3"
    using thm01 adj idx aff by simp
  have rej: "swap_edge ex_kernel True mesh_B 0 2 (Fin 100) = Some (False, mesh_B)"
    using thm02 ret2 aff2 by simp
  show ?thesis
    using adj wf aff card3 bnd run new qo qn sz aff2 rej small by simp
qed

section \<open>split\_edge\<close>

lemma id_loop_ge: "a \<in> set xs \<Longrightarrow> int i \<le> id_loop i xs a"
proof (induction xs arbitrary: i)
  case Nil
  then show ?case by simp
next
  case (Cons x xs)
  show ?case
  proof (cases "x = a")
    case True
    then show ?thesis by simp
  next
    case False
    with Cons.prems have "a \<in> set xs" by simp
    from Cons.IH [OF this, of "Suc i"] False show ?thesis by simp
  qed
qed

lemma replace_loop_index:
  "a \<in> set xs \<Longrightarrow> replace_loop xs a b = Some (xs[nat (id_loop i xs a - int i) := b])"
proof (induction xs arbitrary: i)
  case Nil
  then show ?case by simp
next
  case (Cons x xs)
  show ?case
  proof (cases "x = a")
    case True
    then show ?thesis by simp
  next
    case False
    with Cons.prems have mem: "a \<in> set xs" by simp
    from id_loop_ge [OF mem, of "Suc i"]
    have "nat (id_loop (Suc i) xs a - int i) = Suc (nat (id_loop (Suc i) xs a - int (Suc i)))"
      by simp
    with False Cons.IH [OF mem, of "Suc i"] show ?thesis by simp
  qed
qed

lemma replace_member:
  "a \<in> set cn \<Longrightarrow> replace dbg cn a b = Some (cn[nat (id_in_array cn a) := b])"
  using replace_loop_index [of a cn b 0] by (simp add: replace_def id_in_array_def)

lemma those_map_Some:
  "those (map f xs) = Some ys \<Longrightarrow> length ys = length xs \<and> (\<forall>i < length xs. f (xs ! i) = Some (ys ! i))"
proof (induction xs arbitrary: ys)
  case Nil
  then show ?case by simp
next
  case (Cons x xs)
  from Cons.prems obtain y zs where fx: "f x = Some y" and rest: "those (map f xs) = Some zs"
    and ys: "ys = y # zs"
    by (auto split: option.splits)
  from Cons.IH [OF rest] have len: "length zs = length xs"
    and each: "\<forall>i < length xs. f (xs ! i) = Some (zs ! i)"
    by blast+
  have "f ((x # xs) ! i) = Some (ys ! i)" if "i < length (x # xs)" for i
    using that fx each ys by (cases i) simp_all
  then show ?case
    using len ys by simp
qed

lemma concat_pairs:
  assumes "\<forall>x \<in> set xs. length x = 2"
  shows "length (concat xs) = 2 * length xs
         \<and> (\<forall>i < length xs. concat xs ! (2 * i) = xs ! i ! 0 \<and> concat xs ! (2 * i + 1) = xs ! i ! 1)"
  using assms
proof (induction xs)
  case Nil
  then show ?case by simp
next
  case (Cons x xs)
  then have lx: "length x = 2" and ih: "length (concat xs) = 2 * length xs"
    and ihi: "\<forall>i < length xs. concat xs ! (2 * i) = xs ! i ! 0 \<and> concat xs ! (2 * i + 1) = xs ! i ! 1"
    by simp_all
  have "concat (x # xs) ! (2 * i) = (x # xs) ! i ! 0 \<and> concat (x # xs) ! (2 * i + 1) = (x # xs) ! i ! 1"
    if "i < length (x # xs)" for i
  proof (cases i)
    case 0
    then show ?thesis using lx by (simp add: nth_append)
  next
    case (Suc k)
    with that have k: "k < length xs" by simp
    have "2 * i = length x + 2 * k" "2 * i + 1 = length x + (2 * k + 1)"
      using Suc lx by simp_all
    then show ?thesis
      using ihi k Suc by (simp only: concat.simps nth_append_length_plus nth_Cons_Suc) 
  qed
  then show ?case
    using lx ih by simp
qed

lemma split_new_tets_children:
  assumes new: "split_new_tets dbg ta affected v0 v1 vx = Some new_tets"
    and mem: "\<forall>t \<in> set affected. v0 \<in> set (conn (ta ! nat t)) \<and> v1 \<in> set (conn (ta ! nat t))"
  shows "length new_tets = 2 * length affected
         \<and> (\<forall>i < length affected.
               new_tets ! (2 * i)
                 = (conn (ta ! nat (affected ! i)))
                     [nat (id_in_array (conn (ta ! nat (affected ! i))) v0) := vx]
               \<and> new_tets ! (2 * i + 1)
                 = (conn (ta ! nat (affected ! i)))
                     [nat (id_in_array (conn (ta ! nat (affected ! i))) v1) := vx])"
proof -
  let ?f = "\<lambda>t. do {
              a \<leftarrow> replace dbg (conn (ta ! nat t)) v0 vx;
              b \<leftarrow> replace dbg (conn (ta ! nat t)) v1 vx;
              Some [a, b]
            }"
  from new obtain pairs where th: "those (map ?f affected) = Some pairs" and nt: "new_tets = concat pairs"
    unfolding split_new_tets_def by auto
  from those_map_Some [OF th] have len: "length pairs = length affected"
    and each: "\<forall>i < length affected. ?f (affected ! i) = Some (pairs ! i)"
    by blast+
  have pair: "pairs ! i = [(conn (ta ! nat (affected ! i)))
                              [nat (id_in_array (conn (ta ! nat (affected ! i))) v0) := vx],
                           (conn (ta ! nat (affected ! i)))
                              [nat (id_in_array (conn (ta ! nat (affected ! i))) v1) := vx]]"
    if "i < length affected" for i
  proof -
    from that mem have m0: "v0 \<in> set (conn (ta ! nat (affected ! i)))"
      and m1: "v1 \<in> set (conn (ta ! nat (affected ! i)))"
      by simp_all
    from each that have "?f (affected ! i) = Some (pairs ! i)"
      by blast
    then show ?thesis
      by (simp add: replace_member [OF m0] replace_member [OF m1])
  qed
  have two: "\<forall>x \<in> set pairs. length x = 2"
  proof
    fix x assume "x \<in> set pairs"
    then obtain i where "i < length pairs" "x = pairs ! i"
      by (auto simp: in_set_conv_nth)
    then show "length x = 2"
      using pair [of i] len by simp
  qed
  from concat_pairs [OF two] show ?thesis
    using len pair nt by simp
qed

lemma conn_new_tet_attr: "conn (new_tet_attr va asg t) = t"
  by (simp add: new_tet_attr_def Let_def)

lemma length_mark_removed:
  "length (fold (\<lambda>ti ta. ta[nat ti := (ta ! nat ti)\<lparr>is_removed := True\<rparr>]) affected ta) = length ta"
  by (induction affected arbitrary: ta) simp_all


lemma add_new_tet_shape:
  "\<exists>vc1 cnt1. add_new_tet va aff asg t (vc, ta, cnt) = (vc1, ta @ [new_tet_attr va asg t], cnt1)"
  unfolding add_new_tet_def by (simp only: prod.case) (intro exI, rule refl)

lemma fold_add_new_tet_appends:
  "fold (add_new_tet va aff asg) nts (vc, ta, cnt) = (vc', ta', cnt')
   \<Longrightarrow> \<exists>X. ta' = ta @ X \<and> map conn X = nts"
proof (induction nts arbitrary: vc ta cnt)
  case Nil
  then have "ta' = ta @ [] \<and> map conn [] = []"
    by simp
  then show ?case
    by (rule exI)
next
  case (Cons t nts)
  from add_new_tet_shape [of va aff asg t vc ta cnt] obtain vc1 cnt1 where step:
    "add_new_tet va aff asg t (vc, ta, cnt) = (vc1, ta @ [new_tet_attr va asg t], cnt1)"
    by blast
  from Cons.prems have "fold (add_new_tet va aff asg) nts (add_new_tet va aff asg t (vc, ta, cnt)) = (vc', ta', cnt')"
    by (simp only: fold_simps)
  then have "fold (add_new_tet va aff asg) nts (vc1, ta @ [new_tet_attr va asg t], cnt1) = (vc', ta', cnt')"
    by (simp only: step)
  from Cons.IH [OF this] obtain X where X: "ta' = (ta @ [new_tet_attr va asg t]) @ X" "map conn X = nts"
    by blast
  have "ta' = ta @ (new_tet_attr va asg t # X)"
    using X(1) by simp
  moreover have "map conn (new_tet_attr va asg t # X) = t # nts"
    using X(2) by (simp add: conn_new_tet_attr)
  ultimately have "ta' = ta @ (new_tet_attr va asg t # X) \<and> map conn (new_tet_attr va asg t # X) = t # nts"
    by (rule conjI)
  then show ?case
    by (rule exI)
qed


lemma update_tetra_conn_fold:
  assumes "update_tetra_conn dbg va ta vc affected new_tets modified_pids modified_tris = Some (ta', vc')"
  shows "\<exists>asg vc1.
           ta' = fst (snd (fold (add_new_tet va affected asg) new_tets
                             (vc1, fold (\<lambda>ti ta. ta[nat ti := (ta ! nat ti)\<lparr>is_removed := True\<rparr>]) affected ta, 0)))"
  using assms unfolding update_tetra_conn_def Let_def split_def
  apply (clarsimp simp: bind_eq_Some_conv split: if_splits)
   apply (intro exI, rule refl)+
  done


lemma update_tetra_conn_appends:
  assumes "update_tetra_conn dbg va ta vc affected new_tets modified_pids modified_tris = Some (ta', vc')"
  shows "length ta' = length ta + length new_tets \<and> map conn (drop (length ta) ta') = new_tets"
proof -
  let ?ta0 = "fold (\<lambda>ti ta. ta[nat ti := (ta ! nat ti)\<lparr>is_removed := True\<rparr>]) affected ta"
  from update_tetra_conn_fold [OF assms] obtain asg vc1 where
    ta': "ta' = fst (snd (fold (add_new_tet va affected asg) new_tets (vc1, ?ta0, 0)))"
    by (elim exE)
  obtain vc2 ta2 cnt where f: "fold (add_new_tet va affected asg) new_tets (vc1, ?ta0, 0) = (vc2, ta2, cnt)"
    by (rule prod_cases3)
  from fold_add_new_tet_appends [OF f] obtain X where X: "ta2 = ?ta0 @ X" and c: "map conn X = new_tets"
    by (elim exE conjE)
  have eq: "ta' = ?ta0 @ X"
    using ta' f X by simp
  have lx: "length X = length new_tets"
    using c by (metis length_map)
  have l0: "length ?ta0 = length ta"
    by (rule length_mark_removed)
  have "length ta' = length ta + length new_tets"
    using eq lx l0 by simp
  moreover have "drop (length ta) ta' = X"
    using eq l0 by simp
  ultimately show ?thesis
    using c by simp
qed

lemma commit_effect:
  assumes "commit K dbg s affected new_tets new_fid moved_tris = Some s'"
  shows "vert_attrs s' = vert_attrs s \<and> pc s' = pc s \<and> opts s' = opts s
         \<and> length (tet_attrs s') = length (tet_attrs s) + length new_tets
         \<and> map conn (drop (length (tet_attrs s)) (tet_attrs s')) = new_tets"
proof -
  from assms obtain ta vc where
    u: "update_tetra_conn dbg (vert_attrs s) (tet_attrs s) (vert_conn s) affected new_tets new_fid moved_tris
        = Some (ta, vc)"
    and s': "s' = s\<lparr>tet_attrs := ta, vert_conn := vc\<rparr>"
    unfolding commit_def by (auto simp: bind_eq_Some_conv)
  from update_tetra_conn_appends [OF u] show ?thesis
    unfolding s' by simp
qed


lemma split_push_shell_effect:
  assumes "split_push_shell K dbg s v0 v1 bnd_pris = Some s'"
  shows "tet_attrs s' = tet_attrs s \<and> vert_conn s' = vert_conn s
         \<and> vert_attrs s' = butlast (vert_attrs s) @ [(last (vert_attrs s))\<lparr>mid_id := int (length (pc_mid (pc s)))\<rparr>]"
  using assms unfolding split_push_shell_def Let_def
  by (clarsimp simp: bind_eq_Some_conv)

lemma split_shell_effect:
  assumes "split_shell K dbg s pv0 pv1 bnd_pris = Some (Some (s', new_fid, moved_tris))"
  shows "tet_attrs s' = tet_attrs s \<and> vert_conn s' = vert_conn s \<and> vert_attrs s' = vert_attrs s"
  using assms unfolding split_shell_def Let_def split_def
  by (clarsimp simp: bind_eq_Some_conv split: if_splits)


lemma split_add_vertex_effect:
  "vert_attrs (split_add_vertex K s v0 v1)
     = vert_attrs s @ [\<lparr>pos = vec_half K (vec_add K (pos ((vert_attrs s @ [default_VertAttr K]) ! nat v0))
                                               (pos ((vert_attrs s @ [default_VertAttr K]) ! nat v1))),
                        mid_id = -1\<rparr>]
   \<and> tet_attrs (split_add_vertex K s v0 v1) = tet_attrs s
   \<and> vert_conn (split_add_vertex K s v0 v1) = vert_conn s"
  by (simp add: split_add_vertex_def Let_def default_VertAttr_def)

lemma split_finish_True_effect:
  assumes "split_finish K dbg s2 affected new_tets bnd_pris pv0 pv1 = Some (True, s')"
  shows "vert_attrs s' = vert_attrs s2
         \<and> length (tet_attrs s') = length (tet_attrs s2) + length new_tets
         \<and> map conn (drop (length (tet_attrs s2)) (tet_attrs s')) = new_tets"
  using assms unfolding split_finish_def
  by (auto simp: bind_eq_Some_conv split: if_splits option.splits prod.splits
      dest!: audited_Some commit_effect split_shell_effect)


lemma split_edge_True_parts:
  assumes "split_edge K dbg s v0 v1 = Some (True, s')"
  shows "\<exists>new_tets s2.
           split_new_tets dbg (tet_attrs s) (set_inter (vert_conn s ! nat v0) (vert_conn s ! nat v1)) v0 v1
             (int (length (vert_attrs s))) = Some new_tets
           \<and> (s2 = split_add_vertex K s v0 v1
                \<or> split_push_shell K dbg (split_add_vertex K s v0 v1) v0 v1
                     (edge_adjacent_boundary_face (tet_attrs s) (vert_conn s) v0 v1) = Some s2)
           \<and> split_finish K dbg s2 (set_inter (vert_conn s ! nat v0) (vert_conn s ! nat v1)) new_tets
                 (edge_adjacent_boundary_face (tet_attrs s) (vert_conn s) v0 v1)
                 (mid_id (vert_attrs (split_add_vertex K s v0 v1) ! nat v0))
                 (mid_id (vert_attrs (split_add_vertex K s v0 v1) ! nat v1)) = Some (True, s')"
  using assms unfolding split_edge_def Let_def
  by (auto simp: bind_eq_Some_conv split: if_splits)

lemma split_add_vertex_verts:
  assumes "0 \<le> v0" "nat v0 < length (vert_attrs s)" "0 \<le> v1" "nat v1 < length (vert_attrs s)"
  shows "vert_attrs (split_add_vertex K s v0 v1)
         = vert_attrs s @ [\<lparr>pos = vec_half K (vec_add K (pos (vert_attrs s ! nat v0)) (pos (vert_attrs s ! nat v1))),
                            mid_id = -1\<rparr>]"
  using assms by (simp add: split_add_vertex_def Let_def default_VertAttr_def nth_append)

lemma split_edge_True_effect:
  assumes acc: "split_edge K dbg s v0 v1 = Some (True, s')"
    and v0: "0 \<le> v0" "nat v0 < length (vert_attrs s)"
    and v1: "0 \<le> v1" "nat v1 < length (vert_attrs s)"
  shows "length (vert_attrs s') = length (vert_attrs s) + 1
         \<and> butlast (vert_attrs s') = vert_attrs s
         \<and> pos (last (vert_attrs s'))
             = vec_half K (vec_add K (pos (vert_attrs s ! nat v0)) (pos (vert_attrs s ! nat v1)))
         \<and> (\<exists>new_tets.
               split_new_tets dbg (tet_attrs s) (set_inter (vert_conn s ! nat v0) (vert_conn s ! nat v1))
                 v0 v1 (int (length (vert_attrs s))) = Some new_tets
               \<and> length (tet_attrs s') = length (tet_attrs s) + length new_tets
               \<and> map conn (drop (length (tet_attrs s)) (tet_attrs s')) = new_tets)"
proof -
  let ?s1 = "split_add_vertex K s v0 v1"
  let ?p = "vec_half K (vec_add K (pos (vert_attrs s ! nat v0)) (pos (vert_attrs s ! nat v1)))"
  from split_edge_True_parts [OF acc] obtain new_tets s2 where
    nt: "split_new_tets dbg (tet_attrs s) (set_inter (vert_conn s ! nat v0) (vert_conn s ! nat v1)) v0 v1
           (int (length (vert_attrs s))) = Some new_tets"
    and s2: "s2 = ?s1 \<or> split_push_shell K dbg ?s1 v0 v1
                (edge_adjacent_boundary_face (tet_attrs s) (vert_conn s) v0 v1) = Some s2"
    and fin: "split_finish K dbg s2 (set_inter (vert_conn s ! nat v0) (vert_conn s ! nat v1)) new_tets
                 (edge_adjacent_boundary_face (tet_attrs s) (vert_conn s) v0 v1)
                 (mid_id (vert_attrs ?s1 ! nat v0)) (mid_id (vert_attrs ?s1 ! nat v1)) = Some (True, s')"
    by (elim exE conjE)
  have va1: "vert_attrs ?s1 = vert_attrs s @ [\<lparr>pos = ?p, mid_id = -1\<rparr>]"
    by (rule split_add_vertex_verts [OF v0 v1])
  have ta1: "tet_attrs ?s1 = tet_attrs s"
    using split_add_vertex_effect [of K s v0 v1] by (elim conjE)
  from s2 have "\<exists>m. vert_attrs s2 = vert_attrs s @ [\<lparr>pos = ?p, mid_id = m\<rparr>]"
  proof
    assume eq: "s2 = ?s1"
    show ?thesis
      unfolding eq va1 by (rule exI, rule refl)
  next
    assume "split_push_shell K dbg ?s1 v0 v1
              (edge_adjacent_boundary_face (tet_attrs s) (vert_conn s) v0 v1) = Some s2"
    from split_push_shell_effect [OF this]
    have "vert_attrs s2 = butlast (vert_attrs ?s1) @ [(last (vert_attrs ?s1))\<lparr>mid_id := int (length (pc_mid (pc ?s1)))\<rparr>]"
      by (elim conjE)
    then have "vert_attrs s2 = vert_attrs s @ [\<lparr>pos = ?p, mid_id = int (length (pc_mid (pc ?s1)))\<rparr>]"
      by (simp only: va1 butlast_snoc last_snoc VertAttr.simps)
    then show ?thesis by (rule exI)
  qed
  then obtain m where va2: "vert_attrs s2 = vert_attrs s @ [\<lparr>pos = ?p, mid_id = m\<rparr>]"
    by (elim exE)
  from s2 have ta2: "tet_attrs s2 = tet_attrs s"
  proof
    assume eq: "s2 = ?s1"
    show ?thesis
      unfolding eq by (rule ta1)
  next
    assume "split_push_shell K dbg ?s1 v0 v1
              (edge_adjacent_boundary_face (tet_attrs s) (vert_conn s) v0 v1) = Some s2"
    from split_push_shell_effect [OF this] have "tet_attrs s2 = tet_attrs ?s1"
      by (elim conjE)
    then show ?thesis
      by (simp only: ta1)
  qed
  note fin_effect = split_finish_True_effect [OF fin]
  have va': "vert_attrs s' = vert_attrs s2"
    by (rule fin_effect [THEN conjunct1])
  have len: "length (tet_attrs s') = length (tet_attrs s2) + length new_tets"
    by (rule fin_effect [THEN conjunct2, THEN conjunct1])
  have cn: "map conn (drop (length (tet_attrs s2)) (tet_attrs s')) = new_tets"
    by (rule fin_effect [THEN conjunct2, THEN conjunct2])
  have a: "length (vert_attrs s') = length (vert_attrs s) + 1"
    by (simp only: va' va2 length_append list.size)
  have b: "butlast (vert_attrs s') = vert_attrs s"
    by (simp only: va' va2 butlast_snoc)
  have c: "pos (last (vert_attrs s')) = ?p"
    by (simp only: va' va2 last_snoc VertAttr.simps)
  have d: "split_new_tets dbg (tet_attrs s) (set_inter (vert_conn s ! nat v0) (vert_conn s ! nat v1))
                 v0 v1 (int (length (vert_attrs s))) = Some new_tets
               \<and> length (tet_attrs s') = length (tet_attrs s) + length new_tets
               \<and> map conn (drop (length (tet_attrs s)) (tet_attrs s')) = new_tets"
    using nt len cn by (simp only: ta2 simp_thms)
  have e: "\<exists>new_tets.
               split_new_tets dbg (tet_attrs s) (set_inter (vert_conn s ! nat v0) (vert_conn s ! nat v1))
                 v0 v1 (int (length (vert_attrs s))) = Some new_tets
               \<and> length (tet_attrs s') = length (tet_attrs s) + length new_tets
               \<and> map conn (drop (length (tet_attrs s)) (tet_attrs s')) = new_tets"
    using d by (rule exI)
  show ?thesis
    using a b c e by (intro conjI)
qed

lemma vert_attrs_split_rollback: "vert_attrs (split_rollback s) = butlast (vert_attrs s)"
  by (simp add: split_rollback_def pop_back_def)

lemma split_finish_False:
  "split_finish K dbg s2 affected new_tets bnd_pris pv0 pv1 = Some (False, s') \<Longrightarrow> s' = split_rollback s2"
  unfolding split_finish_def
  by (auto simp: bind_eq_Some_conv split: if_splits option.splits prod.splits dest!: audited_Some)

lemma split_edge_False_parts:
  assumes "split_edge K dbg s v0 v1 = Some (False, s')"
  shows "\<exists>s2. (s2 = split_add_vertex K s v0 v1
               \<or> split_push_shell K dbg (split_add_vertex K s v0 v1) v0 v1
                    (edge_adjacent_boundary_face (tet_attrs s) (vert_conn s) v0 v1) = Some s2)
              \<and> s' = split_rollback s2"
  using assms unfolding split_edge_def Let_def
  by (auto simp: bind_eq_Some_conv split: if_splits dest!: split_finish_False)

lemma split_edge_False_verts:
  assumes "split_edge K dbg s v0 v1 = Some (False, s')"
  shows "vert_attrs s' = vert_attrs s"
proof -
  let ?s1 = "split_add_vertex K s v0 v1"
  from split_edge_False_parts [OF assms] obtain s2 where
    s2: "s2 = ?s1 \<or> split_push_shell K dbg ?s1 v0 v1
                (edge_adjacent_boundary_face (tet_attrs s) (vert_conn s) v0 v1) = Some s2"
    and s': "s' = split_rollback s2"
    by (elim exE conjE)
  have b1: "butlast (vert_attrs ?s1) = vert_attrs s"
    using split_add_vertex_effect [of K s v0 v1] by simp
  from s2 have "butlast (vert_attrs s2) = vert_attrs s"
  proof
    assume "s2 = ?s1"
    with b1 show ?thesis by simp
  next
    assume "split_push_shell K dbg ?s1 v0 v1
              (edge_adjacent_boundary_face (tet_attrs s) (vert_conn s) v0 v1) = Some s2"
    from split_push_shell_effect [OF this] b1 show ?thesis by simp
  qed
  then show ?thesis
    unfolding s' vert_attrs_split_rollback .
qed

lemma affected_members:
  assumes adj: "adjacency_consistent s"
    and v0: "0 \<le> v0" "nat v0 < length (vert_conn s)"
    and v1: "0 \<le> v1" "nat v1 < length (vert_conn s)"
  shows "set_inter (vert_conn s ! nat v0) (vert_conn s ! nat v1)
         = map int (filter (\<lambda>t. \<not> is_removed (tet_attrs s ! t)
                                 \<and> v0 \<in> set (conn (tet_attrs s ! t))
                                 \<and> v1 \<in> set (conn (tet_attrs s ! t)))
                           [0..<length (tet_attrs s)])"
proof -
  have "vert_conn s ! nat v0 = tets_of (tet_attrs s) v0" "vert_conn s ! nat v1 = tets_of (tet_attrs s) v1"
    using adj v0 v1 by (simp_all add: adjacency_consistentD)
  then show ?thesis
    by (simp only: set_inter_tets_of)
qed

text \<open>
  Claim C6. \<open>split_edge(v0, v1)\<close> on two vertices of the mesh: when it returns true, exactly
  one vertex was appended, the old vertices are unchanged, the position of the new vertex
  is the midpoint \<open>(pos v0 + pos v1) / 2\<close>, and the tets appended to the mesh are, in order,
  the children proposed for the affected tets. When it returns false the vertex list is
  the one before the call. Under the adjacency invariant the affected tets are exactly
  the non-removed tets that contain both \<open>v0\<close> and \<open>v1\<close>, and each of them proposes exactly
  two children: its own vertex tuple with \<open>v0\<close> replaced by the new vertex, then with \<open>v1\<close>
  replaced by the new vertex.
\<close>

theorem split_edge_midpoint_and_children:
  fixes K :: "('p, 'g) kernel" and s :: "('p, 'g) mesh" and v0 v1 :: int
  defines "affected \<equiv> set_inter (vert_conn s ! nat v0) (vert_conn s ! nat v1)"
    and "vx \<equiv> int (length (vert_attrs s))"
  assumes v0: "0 \<le> v0" "nat v0 < length (vert_attrs s)"
    and v1: "0 \<le> v1" "nat v1 < length (vert_attrs s)"
    and adj: "adjacency_consistent s" "length (vert_conn s) = length (vert_attrs s)"
  shows
    "(split_edge K dbg s v0 v1 = Some (True, s')
        \<longrightarrow> length (vert_attrs s') = length (vert_attrs s) + 1
            \<and> butlast (vert_attrs s') = vert_attrs s
            \<and> pos (last (vert_attrs s'))
                = vec_half K (vec_add K (pos (vert_attrs s ! nat v0)) (pos (vert_attrs s ! nat v1)))
            \<and> (\<exists>new_tets.
                  split_new_tets dbg (tet_attrs s) affected v0 v1 vx = Some new_tets
                  \<and> length (tet_attrs s') = length (tet_attrs s) + length new_tets
                  \<and> map conn (drop (length (tet_attrs s)) (tet_attrs s')) = new_tets))
     \<and> (split_edge K dbg s v0 v1 = Some (False, s') \<longrightarrow> vert_attrs s' = vert_attrs s)
     \<and> affected = map int (filter (\<lambda>t. \<not> is_removed (tet_attrs s ! t)
                                        \<and> v0 \<in> set (conn (tet_attrs s ! t))
                                        \<and> v1 \<in> set (conn (tet_attrs s ! t)))
                                  [0..<length (tet_attrs s)])
     \<and> (\<forall>new_tets.
           split_new_tets dbg (tet_attrs s) affected v0 v1 vx = Some new_tets
           \<longrightarrow> length new_tets = 2 * length affected
               \<and> (\<forall>i < length affected.
                     new_tets ! (2 * i)
                       = (conn (tet_attrs s ! nat (affected ! i)))
                           [nat (id_in_array (conn (tet_attrs s ! nat (affected ! i))) v0) := vx]
                     \<and> new_tets ! (2 * i + 1)
                       = (conn (tet_attrs s ! nat (affected ! i)))
                           [nat (id_in_array (conn (tet_attrs s ! nat (affected ! i))) v1) := vx]))"
proof -
  have p1: "split_edge K dbg s v0 v1 = Some (True, s')
        \<longrightarrow> length (vert_attrs s') = length (vert_attrs s) + 1
            \<and> butlast (vert_attrs s') = vert_attrs s
            \<and> pos (last (vert_attrs s'))
                = vec_half K (vec_add K (pos (vert_attrs s ! nat v0)) (pos (vert_attrs s ! nat v1)))
            \<and> (\<exists>new_tets.
                  split_new_tets dbg (tet_attrs s) affected v0 v1 vx = Some new_tets
                  \<and> length (tet_attrs s') = length (tet_attrs s) + length new_tets
                  \<and> map conn (drop (length (tet_attrs s)) (tet_attrs s')) = new_tets)"
  proof
    assume acc: "split_edge K dbg s v0 v1 = Some (True, s')"
    show "length (vert_attrs s') = length (vert_attrs s) + 1
            \<and> butlast (vert_attrs s') = vert_attrs s
            \<and> pos (last (vert_attrs s'))
                = vec_half K (vec_add K (pos (vert_attrs s ! nat v0)) (pos (vert_attrs s ! nat v1)))
            \<and> (\<exists>new_tets.
                  split_new_tets dbg (tet_attrs s) affected v0 v1 vx = Some new_tets
                  \<and> length (tet_attrs s') = length (tet_attrs s) + length new_tets
                  \<and> map conn (drop (length (tet_attrs s)) (tet_attrs s')) = new_tets)"
      unfolding affected_def vx_def by (rule split_edge_True_effect [OF acc v0 v1])
  qed
  have p2: "split_edge K dbg s v0 v1 = Some (False, s') \<longrightarrow> vert_attrs s' = vert_attrs s"
    by (rule impI) (rule split_edge_False_verts)
  have p3: "affected = map int (filter (\<lambda>t. \<not> is_removed (tet_attrs s ! t)
                                        \<and> v0 \<in> set (conn (tet_attrs s ! t))
                                        \<and> v1 \<in> set (conn (tet_attrs s ! t)))
                                  [0..<length (tet_attrs s)])"
    unfolding affected_def using adj v0 v1 by (intro affected_members) simp_all
  have mem: "\<forall>t \<in> set affected. v0 \<in> set (conn (tet_attrs s ! nat t)) \<and> v1 \<in> set (conn (tet_attrs s ! nat t))"
    unfolding p3 by auto
  have p4: "\<forall>new_tets.
           split_new_tets dbg (tet_attrs s) affected v0 v1 vx = Some new_tets
           \<longrightarrow> length new_tets = 2 * length affected
               \<and> (\<forall>i < length affected.
                     new_tets ! (2 * i)
                       = (conn (tet_attrs s ! nat (affected ! i)))
                           [nat (id_in_array (conn (tet_attrs s ! nat (affected ! i))) v0) := vx]
                     \<and> new_tets ! (2 * i + 1)
                       = (conn (tet_attrs s ! nat (affected ! i)))
                           [nat (id_in_array (conn (tet_attrs s ! nat (affected ! i))) v1) := vx])"
  proof (intro allI impI)
    fix new_tets
    assume new: "split_new_tets dbg (tet_attrs s) affected v0 v1 vx = Some new_tets"
    show "length new_tets = 2 * length affected
               \<and> (\<forall>i < length affected.
                     new_tets ! (2 * i)
                       = (conn (tet_attrs s ! nat (affected ! i)))
                           [nat (id_in_array (conn (tet_attrs s ! nat (affected ! i))) v0) := vx]
                     \<and> new_tets ! (2 * i + 1)
                       = (conn (tet_attrs s ! nat (affected ! i)))
                           [nat (id_in_array (conn (tet_attrs s ! nat (affected ! i))) v1) := vx])"
      by (rule split_new_tets_children [OF new mem])
  qed
  show ?thesis
    by (rule conjI p1 p2 p3 p4)+
qed

text \<open>
  The theorem at \<open>mesh_A\<close>: the split of the interior edge (4, 0) is accepted, creates vertex
  5 at (5/2, 1/2, 1/2) and six children for the three affected tets; the split of the edge
  (4, 3) under the grid kernel is rejected and the vertex list is as before.
\<close>

theorem split_edge_midpoint_and_children_witness:
  "(0 :: int) \<le> 4 \<and> nat 4 < length (vert_attrs mesh_A) \<and> (0 :: int) \<le> 0 \<and> nat 0 < length (vert_attrs mesh_A)
   \<and> adjacency_consistent mesh_A \<and> length (vert_conn mesh_A) = length (vert_attrs mesh_A)
   \<and> set_inter (vert_conn mesh_A ! nat 4) (vert_conn mesh_A ! nat 0) = [0, 1, 2]
   \<and> split_new_tets True (tet_attrs mesh_A) [0, 1, 2] 4 0 5
       = Some [[5, 0, 1, 2], [4, 5, 1, 2], [5, 1, 0, 3], [4, 1, 5, 3], [5, 0, 2, 3], [4, 5, 2, 3]]
   \<and> split_edge ex_kernel True mesh_A 4 0 = Some (True, mesh_A_split)
   \<and> length (vert_attrs mesh_A_split) = 6
   \<and> pos (last (vert_attrs mesh_A_split)) = (5 / 2, 1 / 2, 1 / 2)
   \<and> map conn (drop 4 (tet_attrs mesh_A_split))
       = [[5, 0, 1, 2], [4, 5, 1, 2], [5, 1, 0, 3], [4, 1, 5, 3], [5, 0, 2, 3], [4, 5, 2, 3]]
   \<and> split_edge ex_kernel_grid True mesh_A 4 3 = Some (False, mesh_A_after_rejected_split)
   \<and> vert_attrs mesh_A_after_rejected_split = vert_attrs mesh_A"
proof -
  have i0: "(0 :: int) \<le> 4" "nat 4 < length (vert_attrs mesh_A)" by code_simp+
  have i1: "(0 :: int) \<le> 0" "nat 0 < length (vert_attrs mesh_A)" by code_simp+
  have adj: "adjacency_consistent mesh_A" "length (vert_conn mesh_A) = length (vert_attrs mesh_A)"
    by code_simp+
  have aff: "set_inter (vert_conn mesh_A ! nat 4) (vert_conn mesh_A ! nat 0) = [0, 1, 2]"
    by code_simp
  have len: "int (length (vert_attrs mesh_A)) = 5" "length (tet_attrs mesh_A) = 4" "length (vert_attrs mesh_A) = 5"
    by code_simp+
  have new: "split_new_tets True (tet_attrs mesh_A) [0, 1, 2] 4 0 5
       = Some [[5, 0, 1, 2], [4, 5, 1, 2], [5, 1, 0, 3], [4, 1, 5, 3], [5, 0, 2, 3], [4, 5, 2, 3]]"
    by code_simp
  have run: "split_edge ex_kernel True mesh_A 4 0 = Some (True, mesh_A_split)"
    by code_simp
  have rej: "split_edge ex_kernel_grid True mesh_A 4 3 = Some (False, mesh_A_after_rejected_split)"
    by code_simp
  have mid: "vec_half ex_kernel (vec_add ex_kernel (pos (vert_attrs mesh_A ! nat 4)) (pos (vert_attrs mesh_A ! nat 0)))
             = (5 / 2, 1 / 2, 1 / 2)"
    by code_simp
  note acc = split_edge_midpoint_and_children [OF i0 i1 adj, of ex_kernel True mesh_A_split]
  note rejd = split_edge_midpoint_and_children
    [of 4 mesh_A 3 ex_kernel_grid True mesh_A_after_rejected_split]
  have i3: "(0 :: int) \<le> 3" "nat 3 < length (vert_attrs mesh_A)" by code_simp+
  note accT = acc [THEN conjunct1, rule_format, OF run]
  have a: "length (vert_attrs mesh_A_split) = 6"
    using accT [THEN conjunct1] len(3) by simp
  have b: "pos (last (vert_attrs mesh_A_split)) = (5 / 2, 1 / 2, 1 / 2)"
    using accT [THEN conjunct2, THEN conjunct2, THEN conjunct1] mid by simp
  from accT [THEN conjunct2, THEN conjunct2, THEN conjunct2]
  obtain nt where
    nt: "split_new_tets True (tet_attrs mesh_A)
           (set_inter (vert_conn mesh_A ! nat 4) (vert_conn mesh_A ! nat 0)) 4 0
           (int (length (vert_attrs mesh_A))) = Some nt"
        "map conn (drop (length (tet_attrs mesh_A)) (tet_attrs mesh_A_split)) = nt"
    by blast
  have "Some nt = Some [[5, 0, 1, 2], [4, 5, 1, 2], [5, 1, 0, 3], [4, 1, 5, 3], [5, 0, 2, 3], [4, 5, 2, 3]]"
    using nt(1) new unfolding aff len(1) by simp
  hence c: "map conn (drop 4 (tet_attrs mesh_A_split))
       = [[5, 0, 1, 2], [4, 5, 1, 2], [5, 1, 0, 3], [4, 1, 5, 3], [5, 0, 2, 3], [4, 5, 2, 3]]"
    using nt(2) unfolding len(2) by simp
  have d: "vert_attrs mesh_A_after_rejected_split = vert_attrs mesh_A"
    using rejd [OF i0 i3 adj, THEN conjunct2, THEN conjunct1] rej by simp
  show ?thesis
    using i0 i1 adj aff new run rej a b c d by simp
qed

end
